theory Spec2Isabelle
  imports Main "HOL-Library.AList" "HOL-Library.Word"
begin

unbundle bit_operations_syntax

section \<open>Library functions the program calls\<close>

text \<open>
  Go strings are byte sequences: \<open>string\<close> (a list of 8-bit characters), \<open>len\<close> is
  \<open>length\<close> and \<open>s[:n]\<close> is \<open>take n s\<close> (a panic when \<open>n\<close> is out of range,
  written out where the program slices).  Paths are Unix paths, separator \<open>/\<close>.
\<close>

definition isPathSeparator :: "char \<Rightarrow> bool" where
  "isPathSeparator c = (c = CHR ''/'')"

text \<open>
  \<open>filepath.Base\<close>: the last element of the path, after the trailing slashes are
  stripped; \<open>"."\<close> for the empty path and \<open>"/"\<close> for a path of slashes only.
\<close>

definition filepath_Base :: "string \<Rightarrow> string" where
  "filepath_Base path =
     (if path = [] then ''.''
      else
        let stripped = rev (dropWhile isPathSeparator (rev path));
            elem = rev (takeWhile (\<lambda>c. \<not> isPathSeparator c) (rev stripped))
        in if elem = [] then ''/'' else elem)"

section \<open>Domain types\<close>

text \<open>
  \<open>time.Time\<close> is an instant in nanoseconds (\<open>int\<close>) and \<open>time.Duration\<close> an
  \<open>int64\<close> count of nanoseconds.  \<open>t.Sub u\<close> saturates at the largest and the
  smallest duration, \<open>t.Add d\<close> adds the signed value of \<open>d\<close>, \<open>t.After u\<close> is
  \<open>u < t\<close>.  A function that reads the clock takes the instant \<open>now\<close> as an
  argument.
\<close>

type_synonym time = int
type_synonym int64 = "64 word"
type_synonym duration = int64

definition time_Sub :: "time \<Rightarrow> time \<Rightarrow> duration" where
  "time_Sub t u =
     (let d = t - u in
      if d > 2 ^ 63 - 1 then word_of_int (2 ^ 63 - 1)
      else if d < - (2 ^ 63) then word_of_int (- (2 ^ 63))
      else word_of_int d)"

definition time_Add :: "time \<Rightarrow> duration \<Rightarrow> time" where
  "time_Add t d = t + sint d"

definition time_After :: "time \<Rightarrow> time \<Rightarrow> bool" where
  "time_After t u = (u < t)"

record FilePair =
  DataFile :: string
  DataFilePath :: string
  SHA256File :: string
  SHA256Path :: string
  DataSize :: int64
  FirstSeen :: time
  HasBothFiles :: bool

text \<open>
  The field \<open>FilePair\<close> of a job is \<open>JobFilePair\<close> here, \<open>FilePair\<close> being the
  name of the record.
\<close>

record VerificationJob =
  JobFilePair :: FilePair
  RetryDeadline :: time
  BufferSize :: int

section \<open>FileTracker\<close>

text \<open>
  The map \<open>files\<close> is an association list with one entry per key, in the order of
  insertion.  Go iterates a map in an unspecified order, so the lists the tracker returns
  are read as sets.  The mutex is not modelled: every operation runs under the lock, one
  at a time.
\<close>

record FileTracker =
  files :: "(string \<times> FilePair) list"
  retryTimeout :: duration

text \<open>
  The run-time panics of the program: a slice expression with a negative bound, and
  \<open>make\<close> with a length out of range.
\<close>

datatype panic = SliceBoundsOutOfRange | MakeSliceLenOutOfRange

definition NewFileTracker :: "duration \<Rightarrow> FileTracker" where
  "NewFileTracker timeout = \<lparr>files = [], retryTimeout = timeout\<rparr>"

definition AddOrUpdateDataFile :: "time \<Rightarrow> string \<Rightarrow> int64 \<Rightarrow> FileTracker \<Rightarrow> FileTracker" where
  "AddOrUpdateDataFile now dataFilePath dataSize ft =
     (let dataFile = filepath_Base dataFilePath in
      case map_of (files ft) dataFile of
        Some pair \<Rightarrow>
          ft\<lparr>files := AList.update dataFile
                (pair\<lparr>DataFilePath := dataFilePath, DataSize := dataSize\<rparr>) (files ft)\<rparr>
      | None \<Rightarrow>
          ft\<lparr>files := AList.update dataFile
                \<lparr>DataFile = dataFile, DataFilePath = dataFilePath, SHA256File = [],
                 SHA256Path = [], DataSize = dataSize, FirstSeen = now,
                 HasBothFiles = False\<rparr> (files ft)\<rparr>)"

text \<open>
  \<open>sha256File[:len(sha256File)-7]\<close> panics when the base name has fewer than 7 bytes:
  the result is \<open>Inl SliceBoundsOutOfRange\<close> and the tracker is not touched.
\<close>

definition AddOrUpdateSHA256File :: "time \<Rightarrow> string \<Rightarrow> FileTracker \<Rightarrow> panic + FileTracker" where
  "AddOrUpdateSHA256File now sha256FilePath ft =
     (let sha256File = filepath_Base sha256FilePath in
      if length sha256File < 7 then Inl SliceBoundsOutOfRange
      else
        let dataFile = take (length sha256File - 7) sha256File in
        case map_of (files ft) dataFile of
          Some pair \<Rightarrow>
            Inr (ft\<lparr>files := AList.update dataFile
                   (pair\<lparr>SHA256File := sha256File, SHA256Path := sha256FilePath,
                         HasBothFiles := True\<rparr>) (files ft)\<rparr>)
        | None \<Rightarrow>
            Inr (ft\<lparr>files := AList.update dataFile
                   \<lparr>DataFile = dataFile, DataFilePath = [], SHA256File = sha256File,
                    SHA256Path = sha256FilePath, DataSize = 0, FirstSeen = now,
                    HasBothFiles = False\<rparr> (files ft)\<rparr>))"

definition MarkBothFilesPresent :: "string \<Rightarrow> FileTracker \<Rightarrow> FileTracker" where
  "MarkBothFilesPresent dataFile ft =
     (case map_of (files ft) dataFile of
        Some pair \<Rightarrow> ft\<lparr>files := AList.update dataFile (pair\<lparr>HasBothFiles := True\<rparr>) (files ft)\<rparr>
      | None \<Rightarrow> ft)"

definition GetReadyForVerification :: "FileTracker \<Rightarrow> FilePair list" where
  "GetReadyForVerification ft =
     map snd (filter (\<lambda>(k, pair). HasBothFiles pair \<and> DataFilePath pair \<noteq> [] \<and> SHA256Path pair \<noteq> [])
                (files ft))"

definition GetExpiredFiles :: "time \<Rightarrow> FileTracker \<Rightarrow> FilePair list" where
  "GetExpiredFiles now ft =
     map snd (filter (\<lambda>(k, pair). retryTimeout ft \<le>s time_Sub now (FirstSeen pair)) (files ft))"

definition Remove :: "string \<Rightarrow> FileTracker \<Rightarrow> FileTracker" where
  "Remove dataFile ft = ft\<lparr>files := AList.delete dataFile (files ft)\<rparr>"

definition RemoveByPath :: "string \<Rightarrow> FileTracker \<Rightarrow> FileTracker" where
  "RemoveByPath dataFilePath ft = Remove (filepath_Base dataFilePath) ft"

definition GetPendingCount :: "FileTracker \<Rightarrow> nat" where
  "GetPendingCount ft = length (files ft)"

definition GetFilePair :: "string \<Rightarrow> FileTracker \<Rightarrow> FilePair option" where
  "GetFilePair dataFile ft = map_of (files ft) dataFile"

definition IsExpired :: "time \<Rightarrow> string \<Rightarrow> FileTracker \<Rightarrow> bool" where
  "IsExpired now dataFile ft =
     (case map_of (files ft) dataFile of
        None \<Rightarrow> False
      | Some pair \<Rightarrow> retryTimeout ft \<le>s time_Sub now (FirstSeen pair))"

subsection \<open>Sequences of registry calls\<close>

text \<open>
  The scanner and the workers reach the tracker through \<open>AddOrUpdateDataFile\<close>
  (recordData), \<open>AddOrUpdateSHA256File\<close> (recordChecksum) and \<open>Remove\<close>.  A trace is
  a list of such calls, each with the instant at which it runs; a panic ends the run.
\<close>

datatype call = RecordData string int64 | RecordChecksum string | RemoveKey string

fun apply_call :: "FileTracker \<Rightarrow> time \<times> call \<Rightarrow> panic + FileTracker" where
  "apply_call ft (now, RecordData path sz) = Inr (AddOrUpdateDataFile now path sz ft)"
| "apply_call ft (now, RecordChecksum path) = AddOrUpdateSHA256File now path ft"
| "apply_call ft (now, RemoveKey key) = Inr (Remove key ft)"

fun run_calls :: "FileTracker \<Rightarrow> (time \<times> call) list \<Rightarrow> panic + FileTracker" where
  "run_calls ft [] = Inr ft"
| "run_calls ft (c # cs) =
     (case apply_call ft c of Inl e \<Rightarrow> Inl e | Inr ft' \<Rightarrow> run_calls ft' cs)"

text \<open>
  The key under which \<open>AddOrUpdateSHA256File\<close> files a checksum path, and the
  bookkeeping of a trace: every data path and every checksum path in the tracker was put
  there by a call of the trace for that key.
\<close>

definition checksum_key :: "string \<Rightarrow> string" where
  "checksum_key p = take (length (filepath_Base p) - 7) (filepath_Base p)"

definition halves_recorded :: "(time \<times> call) list \<Rightarrow> FileTracker \<Rightarrow> bool" where
  "halves_recorded cs ft =
     (\<forall>k pair. map_of (files ft) k = Some pair \<longrightarrow>
        (DataFilePath pair \<noteq> [] \<longrightarrow>
           (\<exists>t p sz. (t, RecordData p sz) \<in> set cs \<and> filepath_Base p = k))
      \<and> (SHA256Path pair \<noteq> [] \<longrightarrow>
           (\<exists>t p. (t, RecordChecksum p) \<in> set cs \<and> checksum_key p = k)))"

section \<open>StatsTracker\<close>

text \<open>
  The counters are \<open>int64\<close>: 64-bit words whose \<open>+\<close> wraps around, read as signed
  numbers by \<open>sint\<close>.
\<close>

record StatsTracker =
  totalProcessed :: int64
  successCount :: int64
  failureCount :: int64
  pendingCount :: int64
  totalDuration :: duration
  startTime :: time

record Statistics =
  TotalProcessed :: int64
  SuccessCount :: int64
  FailureCount :: int64
  PendingCount :: int64
  TotalDuration :: duration
  StartTime :: time

definition NewStatsTracker :: "time \<Rightarrow> StatsTracker" where
  "NewStatsTracker now =
     \<lparr>totalProcessed = 0, successCount = 0, failureCount = 0, pendingCount = 0,
      totalDuration = 0, startTime = now\<rparr>"

definition IncrementSuccess :: "duration \<Rightarrow> StatsTracker \<Rightarrow> StatsTracker" where
  "IncrementSuccess d s =
     s\<lparr>successCount := successCount s + 1,
       totalProcessed := totalProcessed s + 1,
       totalDuration := totalDuration s + d\<rparr>"

definition IncrementFailure :: "duration \<Rightarrow> StatsTracker \<Rightarrow> StatsTracker" where
  "IncrementFailure d s =
     s\<lparr>failureCount := failureCount s + 1,
       totalProcessed := totalProcessed s + 1,
       totalDuration := totalDuration s + d\<rparr>"

definition SetPendingCount :: "int64 \<Rightarrow> StatsTracker \<Rightarrow> StatsTracker" where
  "SetPendingCount n s = s\<lparr>pendingCount := n\<rparr>"

definition IncrementPending :: "StatsTracker \<Rightarrow> StatsTracker" where
  "IncrementPending s = s\<lparr>pendingCount := pendingCount s + 1\<rparr>"

definition DecrementPending :: "StatsTracker \<Rightarrow> StatsTracker" where
  "DecrementPending s =
     (if 0 <s pendingCount s then s\<lparr>pendingCount := pendingCount s - 1\<rparr> else s)"

definition GetStatistics :: "StatsTracker \<Rightarrow> Statistics" where
  "GetStatistics s =
     \<lparr>TotalProcessed = totalProcessed s, SuccessCount = successCount s,
      FailureCount = failureCount s, PendingCount = pendingCount s,
      TotalDuration = totalDuration s, StartTime = startTime s\<rparr>"

definition Reset :: "time \<Rightarrow> StatsTracker \<Rightarrow> StatsTracker" where
  "Reset now s =
     s\<lparr>totalProcessed := 0, successCount := 0, failureCount := 0, pendingCount := 0,
       totalDuration := 0, startTime := now\<rparr>"

text \<open>The operations of a \<open>StatsTracker\<close>, and a run of them from a starting state.\<close>

datatype stats_op =
    OpIncrementSuccess duration
  | OpIncrementFailure duration
  | OpSetPendingCount int64
  | OpIncrementPending
  | OpDecrementPending
  | OpReset time

fun apply_stats_op :: "StatsTracker \<Rightarrow> stats_op \<Rightarrow> StatsTracker" where
  "apply_stats_op s (OpIncrementSuccess d) = IncrementSuccess d s"
| "apply_stats_op s (OpIncrementFailure d) = IncrementFailure d s"
| "apply_stats_op s (OpSetPendingCount n) = SetPendingCount n s"
| "apply_stats_op s OpIncrementPending = IncrementPending s"
| "apply_stats_op s OpDecrementPending = DecrementPending s"
| "apply_stats_op s (OpReset now) = Reset now s"

definition run_stats :: "StatsTracker \<Rightarrow> stats_op list \<Rightarrow> StatsTracker" where
  "run_stats s ops = foldl apply_stats_op s ops"

section \<open>The file system\<close>

text \<open>
  The file system is a map from a path to the bytes of the file at that path.  A path that
  is not in the map does not exist: \<open>os.Stat\<close>, \<open>os.Open\<close>, \<open>os.ReadFile\<close>,
  \<open>os.Rename\<close> and \<open>os.Remove\<close> fail on it.  Directories and permissions are not
  modelled: a missing file is the one way \<open>os.Stat\<close>, \<open>os.Rename\<close> and
  \<open>os.Remove\<close> fail, and reading a file can also fail with an input/output error.
\<close>

type_synonym filesys = "string \<rightharpoonup> string"

datatype os_error = NotExist | InputOutputError

definition os_Stat :: "filesys \<Rightarrow> string \<Rightarrow> os_error option" where
  "os_Stat fs p = (case fs p of None \<Rightarrow> Some NotExist | Some c \<Rightarrow> None)"

text \<open>\<open>os.Rename\<close> replaces a file that is already at the new path.\<close>

definition os_Rename :: "filesys \<Rightarrow> string \<Rightarrow> string \<Rightarrow> os_error option \<times> filesys" where
  "os_Rename fs oldpath newpath =
     (case fs oldpath of
        None \<Rightarrow> (Some NotExist, fs)
      | Some c \<Rightarrow> (None, (fs(oldpath := None))(newpath \<mapsto> c)))"

definition os_Remove :: "filesys \<Rightarrow> string \<Rightarrow> os_error option \<times> filesys" where
  "os_Remove fs p =
     (case fs p of None \<Rightarrow> (Some NotExist, fs) | Some c \<Rightarrow> (None, fs(p := None)))"

section \<open>Unicode text (packages unicode/utf8, unicode and strings)\<close>

text \<open>
  A rune is a Unicode code point, a natural number.  \<open>DecodeRuneInString c0 cs\<close> decodes
  the first rune of the non-empty string \<open>c0 # cs\<close> as \<open>utf8.DecodeRuneInString\<close> does:
  it returns the rune and the number of bytes it takes, and \<open>(RuneError, 1)\<close> when the
  bytes are no valid UTF-8 (a bad first byte, a missing or bad continuation byte, an
  encoding that is too long, a surrogate or a value above \<open>U+10FFFF\<close>).
\<close>

type_synonym rune = nat

definition RuneError :: rune where
  "RuneError = 0xFFFD"

definition continuation :: "nat \<Rightarrow> bool" where
  "continuation b = (0x80 \<le> b \<and> b \<le> 0xBF)"

text \<open>The range accepted for the second byte, which depends on the first byte.\<close>

definition second_ok :: "nat \<Rightarrow> nat \<Rightarrow> bool" where
  "second_ok b0 b1 =
     (if b0 = 0xE0 then 0xA0 \<le> b1 \<and> b1 \<le> 0xBF
      else if b0 = 0xED then 0x80 \<le> b1 \<and> b1 \<le> 0x9F
      else if b0 = 0xF0 then 0x90 \<le> b1 \<and> b1 \<le> 0xBF
      else if b0 = 0xF4 then 0x80 \<le> b1 \<and> b1 \<le> 0x8F
      else 0x80 \<le> b1 \<and> b1 \<le> 0xBF)"

definition DecodeRuneInString :: "char \<Rightarrow> string \<Rightarrow> rune \<times> nat" where
  "DecodeRuneInString c0 cs =
     (let b0 = of_char c0 :: nat in
      if b0 < 0x80 then (b0, 1)
      else if 0xC2 \<le> b0 \<and> b0 \<le> 0xDF then
        (case cs of
           c1 # r1 \<Rightarrow>
             if second_ok b0 (of_char c1)
             then ((b0 mod 32) * 64 + of_char c1 mod 64, 2)
             else (RuneError, 1)
         | [] \<Rightarrow> (RuneError, 1))
      else if 0xE0 \<le> b0 \<and> b0 \<le> 0xEF then
        (case cs of
           c1 # c2 # r2 \<Rightarrow>
             if second_ok b0 (of_char c1) \<and> continuation (of_char c2)
             then ((b0 mod 16) * 4096 + (of_char c1 mod 64) * 64 + of_char c2 mod 64, 3)
             else (RuneError, 1)
         | _ \<Rightarrow> (RuneError, 1))
      else if 0xF0 \<le> b0 \<and> b0 \<le> 0xF4 then
        (case cs of
           c1 # c2 # c3 # r3 \<Rightarrow>
             if second_ok b0 (of_char c1) \<and> continuation (of_char c2) \<and> continuation (of_char c3)
             then ((b0 mod 8) * 262144 + (of_char c1 mod 64) * 4096 + (of_char c2 mod 64) * 64
                     + of_char c3 mod 64, 4)
             else (RuneError, 1)
         | _ \<Rightarrow> (RuneError, 1))
      else (RuneError, 1))"

text \<open>
  The runes of a string from left to right, as \<open>for i, r := range s\<close> yields them, each
  with the bytes it was decoded from (one byte for an invalid one).
\<close>

fun runes :: "string \<Rightarrow> (rune \<times> string) list" where
  "runes [] = []"
| "runes (c # cs) =
     (case DecodeRuneInString c cs of
        (r, w) \<Rightarrow> (r, c # take (w - 1) cs) # runes (drop (w - 1) cs))"

text \<open>\<open>unicode.IsSpace\<close>: the runes with the property White\_Space.\<close>

definition unicode_IsSpace :: "rune \<Rightarrow> bool" where
  "unicode_IsSpace r =
     (if r \<le> 0xFF then r \<in> {0x09, 0x0A, 0x0B, 0x0C, 0x0D, 0x20, 0x85, 0xA0}
      else r = 0x1680 \<or> (0x2000 \<le> r \<and> r \<le> 0x200A) \<or> r = 0x2028 \<or> r = 0x2029
           \<or> r = 0x202F \<or> r = 0x205F \<or> r = 0x3000)"

definition isSpaceRune :: "rune \<times> string \<Rightarrow> bool" where
  "isSpaceRune x = unicode_IsSpace (fst x)"

definition bytes_of :: "(rune \<times> string) list \<Rightarrow> string" where
  "bytes_of rs = concat (map snd rs)"

text \<open>
  \<open>strings.TrimSpace\<close> returns the string without its leading and trailing white-space
  runes, and \<open>strings.Fields\<close> the maximal runs of runes that are no white space.  (On
  a string of ASCII bytes Go takes a shorter path to the same result.)
\<close>

definition TrimSpace :: "string \<Rightarrow> string" where
  "TrimSpace s =
     bytes_of (rev (dropWhile isSpaceRune (rev (dropWhile isSpaceRune (runes s)))))"

fun fields_from :: "string \<Rightarrow> (rune \<times> string) list \<Rightarrow> string list" where
  "fields_from cur [] = (if cur = [] then [] else [cur])"
| "fields_from cur (x # xs) =
     (if isSpaceRune x then (if cur = [] then fields_from [] xs else cur # fields_from [] xs)
      else fields_from (cur @ snd x) xs)"

definition Fields :: "string \<Rightarrow> string list" where
  "Fields s = fields_from [] (runes s)"

text \<open>
  \<open>unicode.ToLower\<close> maps \<open>A\<close> to \<open>Z\<close> itself and looks every rune above ASCII up
  in the case tables of package unicode.  That lookup, \<open>unicode.To(unicode.LowerCase, r)\<close>,
  is the parameter \<open>lowerCase\<close>.
\<close>

definition unicode_ToLower :: "(rune \<Rightarrow> rune) \<Rightarrow> rune \<Rightarrow> rune" where
  "unicode_ToLower lowerCase r =
     (if r \<le> 0x7F then (if 0x41 \<le> r \<and> r \<le> 0x5A then r + 32 else r) else lowerCase r)"

text \<open>
  \<open>utf8.AppendRune\<close>: the UTF-8 encoding of a rune; a surrogate or a value above
  \<open>U+10FFFF\<close> is written as \<open>RuneError\<close>.
\<close>

definition EncodeRune :: "rune \<Rightarrow> string" where
  "EncodeRune r =
     (if r \<le> 0x7F then [char_of r]
      else if r \<le> 0x7FF then [char_of (0xC0 + r div 64), char_of (0x80 + r mod 64)]
      else if 0x10FFFF < r \<or> (0xD800 \<le> r \<and> r \<le> 0xDFFF)
        then [char_of (0xEF :: nat), char_of (0xBF :: nat), char_of (0xBD :: nat)]
      else if r \<le> 0xFFFF
        then [char_of (0xE0 + r div 4096), char_of (0x80 + (r div 64) mod 64),
              char_of (0x80 + r mod 64)]
      else [char_of (0xF0 + r div 262144), char_of (0x80 + (r div 4096) mod 64),
            char_of (0x80 + (r div 64) mod 64), char_of (0x80 + r mod 64)])"

text \<open>
  \<open>strings.Map\<close> keeps the bytes of the string up to the first rune that the mapping
  changes or that is an invalid byte (\<open>map_scan\<close>); from there on it writes the encoding
  of every mapped rune (\<open>map_rest\<close>), so an invalid byte becomes the three bytes of
  \<open>RuneError\<close>.  A mapping never returns a negative rune here.  \<open>strings.ToLower\<close>
  is \<open>strings.Map\<close> of \<open>unicode.ToLower\<close> (with a shorter path to the same result on
  ASCII strings).
\<close>

definition map_rest :: "(rune \<Rightarrow> rune) \<Rightarrow> (rune \<times> string) list \<Rightarrow> string" where
  "map_rest mapping rs = concat (map (\<lambda>x. EncodeRune (mapping (fst x))) rs)"

primrec map_scan :: "(rune \<Rightarrow> rune) \<Rightarrow> (rune \<times> string) list \<Rightarrow> string" where
  "map_scan mapping [] = []"
| "map_scan mapping (x # rest) =
     (if mapping (fst x) = fst x \<and> \<not> (fst x = RuneError \<and> length (snd x) = 1)
      then snd x @ map_scan mapping rest
      else EncodeRune (mapping (fst x)) @ map_rest mapping rest)"

definition strings_Map :: "(rune \<Rightarrow> rune) \<Rightarrow> string \<Rightarrow> string" where
  "strings_Map mapping s = map_scan mapping (runes s)"

definition ToLower :: "(rune \<Rightarrow> rune) \<Rightarrow> string \<Rightarrow> string" where
  "ToLower lowerCase s = strings_Map (unicode_ToLower lowerCase) s"

text \<open>
  What the proofs need of the case tables: no rune above ASCII has an upper-case ASCII
  letter as its lower case.  (In Unicode two runes above ASCII have an ASCII lower case:
  \<open>U+0130\<close> goes to \<open>i\<close> and \<open>U+212A\<close> to \<open>k\<close>.)
\<close>

definition no_ascii_upper :: "(rune \<Rightarrow> rune) \<Rightarrow> bool" where
  "no_ascii_upper lowerCase = (\<forall>r. 0x7F < r \<longrightarrow> \<not> (65 \<le> lowerCase r \<and> lowerCase r \<le> 90))"

definition upper_byte :: "char \<Rightarrow> bool" where
  "upper_byte c = (65 \<le> (of_char c :: nat) \<and> (of_char c :: nat) \<le> 90)"

text \<open>A list of runes with their bytes that decoding its own bytes gives back.\<close>

definition decoded :: "(rune \<times> string) list \<Rightarrow> bool" where
  "decoded rs = (runes (bytes_of rs) = rs)"

section \<open>Hexadecimal (package encoding/hex)\<close>

type_synonym byte = "8 word"

definition hextable :: string where
  "hextable = ''0123456789abcdef''"

text \<open>The digits that \<open>EncodeToString\<close> writes: \<open>0\<close> to \<open>9\<close> and \<open>a\<close> to \<open>f\<close>.\<close>

definition lower_hex :: "char \<Rightarrow> bool" where
  "lower_hex c =
     ((48 \<le> (of_char c :: nat) \<and> (of_char c :: nat) \<le> 57)
      \<or> (97 \<le> (of_char c :: nat) \<and> (of_char c :: nat) \<le> 102))"

definition EncodeToString :: "byte list \<Rightarrow> string" where
  "EncodeToString src =
     concat (map (\<lambda>v. [hextable ! unat (drop_bit 4 v), hextable ! unat (v AND 0x0f)]) src)"

definition fromHexChar :: "char \<Rightarrow> byte option" where
  "fromHexChar c =
     (let n = of_char c :: nat in
      if 48 \<le> n \<and> n \<le> 57 then Some (of_nat (n - 48))
      else if 97 \<le> n \<and> n \<le> 102 then Some (of_nat (n - 97 + 10))
      else if 65 \<le> n \<and> n \<le> 70 then Some (of_nat (n - 65 + 10))
      else None)"

datatype hex_error = InvalidByteError char | ErrLength

fun DecodeString :: "string \<Rightarrow> hex_error + byte list" where
  "DecodeString [] = Inr []"
| "DecodeString [p] =
     (case fromHexChar p of None \<Rightarrow> Inl (InvalidByteError p) | Some a \<Rightarrow> Inl ErrLength)"
| "DecodeString (p # q # rest) =
     (case fromHexChar p of
        None \<Rightarrow> Inl (InvalidByteError p)
      | Some a \<Rightarrow>
          (case fromHexChar q of
             None \<Rightarrow> Inl (InvalidByteError q)
           | Some b \<Rightarrow>
               (case DecodeString rest of
                  Inl e \<Rightarrow> Inl e
                | Inr bs \<Rightarrow> Inr ((push_bit 4 a OR b) # bs))))"

section \<open>SHA256 verification\<close>

text \<open>
  What the verification takes from outside the program: the hash function of
  \<open>crypto/sha256\<close>, the lower-case lookup of package unicode, the read faults of the
  device and the largest slice the runtime allocates.  \<open>readFault p = Some k\<close> means
  that reading the file at \<open>p\<close> fails with an input/output error once \<open>k\<close> bytes
  have been read.
\<close>

record platform =
  sha256_Sum :: "string \<Rightarrow> byte list"
  toLowerCase :: "rune \<Rightarrow> rune"
  readFault :: "string \<Rightarrow> nat option"
  maxAlloc :: int

text \<open>
  A call returns a value or panics; a call that never returns has no outcome (\<open>None\<close>).
\<close>

datatype 'a outcome = Returns 'a | Panics panic

text \<open>\<open>os.ReadFile\<close> of a file on that device.\<close>

definition os_ReadFile :: "filesys \<Rightarrow> (string \<Rightarrow> nat option) \<Rightarrow> string \<Rightarrow> os_error + string" where
  "os_ReadFile fs fault p =
     (case fs p of
        None \<Rightarrow> Inl NotExist
      | Some c \<Rightarrow>
          (case fault p of
             None \<Rightarrow> Inr c
           | Some k \<Rightarrow> if k < length c then Inl InputOutputError else Inr c))"

datatype read_error =
    FailedToReadSHA256File os_error
  | SHA256FileIsEmpty
  | SHA256FileHasInvalidFormat
  | InvalidSHA256HashLength nat
  | InvalidSHA256HashFormat hex_error

definition ReadSHA256File :: "platform \<Rightarrow> filesys \<Rightarrow> string \<Rightarrow> read_error + string" where
  "ReadSHA256File pf fs sha256Path =
     (case os_ReadFile fs (readFault pf) sha256Path of
        Inl err \<Rightarrow> Inl (FailedToReadSHA256File err)
      | Inr data \<Rightarrow>
          let content = TrimSpace data in
          if content = [] then Inl SHA256FileIsEmpty
          else
            let parts = Fields content in
            (case parts of
               [] \<Rightarrow> Inl SHA256FileHasInvalidFormat
             | part0 # rest \<Rightarrow>
                 let hash = ToLower (toLowerCase pf) part0 in
                 if length hash \<noteq> 64 then Inl (InvalidSHA256HashLength (length hash))
                 else
                   (case DecodeString hash of
                      Inl err \<Rightarrow> Inl (InvalidSHA256HashFormat err)
                    | Inr bs \<Rightarrow> Inr hash)))"

text \<open>
  An open file is the bytes not yet read and the number of bytes left before the read
  fault, if there is one.  \<open>file.Read(buffer)\<close> with a buffer of \<open>n\<close> bytes returns
  at once with no byte and no error when \<open>n = 0\<close>, \<open>io.EOF\<close> at the end of the
  file, the error at the fault, and up to \<open>n\<close> bytes otherwise.
\<close>

datatype read_err = EOF | ReadFailed os_error

type_synonym open_file = "string \<times> nat option"

definition file_Read :: "open_file \<Rightarrow> nat \<Rightarrow> string \<times> read_err option \<times> open_file" where
  "file_Read f n =
     (case f of
        (rest, budget) \<Rightarrow>
          if n = 0 then ([], None, f)
          else if rest = [] then ([], Some EOF, f)
          else
            (case budget of
               None \<Rightarrow> (take n rest, None, (drop n rest, None))
             | Some k \<Rightarrow>
                 if k = 0 then ([], Some (ReadFailed InputOutputError), f)
                 else (take (min n k) rest, None, (drop (min n k) rest, Some (k - min n k)))))"

text \<open>
  The loop of \<open>ComputeFileSHA256\<close>: \<open>hashed\<close> is what has been written to the hasher.
  The loop ends at \<open>io.EOF\<close> or at an error; it has no other exit.
\<close>

partial_function (option) read_loop ::
  "nat \<Rightarrow> open_file \<Rightarrow> string \<Rightarrow> (os_error + string) option" where
  "read_loop n f hashed =
     (case file_Read f n of
        (chunk, err, f') \<Rightarrow>
          (case err of
             None \<Rightarrow> read_loop n f' (if 0 < length chunk then hashed @ chunk else hashed)
           | Some e \<Rightarrow>
               (case e of
                  EOF \<Rightarrow> Some (Inr (if 0 < length chunk then hashed @ chunk else hashed))
                | ReadFailed oe \<Rightarrow> Some (Inl oe))))"

text \<open>
  \<open>ComputeFileSHA256\<close> opens the file, allocates the buffer (\<open>make\<close> panics when the
  length is negative or above what the runtime allocates), runs the loop and encodes the
  sum in hexadecimal.
\<close>

datatype compute_error = FailedToOpenFile os_error | FailedToReadFile os_error

definition ComputeFileSHA256 ::
  "platform \<Rightarrow> filesys \<Rightarrow> string \<Rightarrow> int \<Rightarrow> (compute_error + string) outcome option" where
  "ComputeFileSHA256 pf fs filePath bufferSize =
     (case fs filePath of
        None \<Rightarrow> Some (Returns (Inl (FailedToOpenFile NotExist)))
      | Some content \<Rightarrow>
          if bufferSize < 0 \<or> maxAlloc pf < bufferSize then Some (Panics MakeSliceLenOutOfRange)
          else
            (case read_loop (nat bufferSize) (content, readFault pf filePath) [] of
               None \<Rightarrow> None
             | Some (Inl err) \<Rightarrow> Some (Returns (Inl (FailedToReadFile err)))
             | Some (Inr hashed) \<Rightarrow>
                 Some (Returns (Inr (EncodeToString (sha256_Sum pf hashed))))))"

datatype verify_error =
    FailedToReadExpectedHash read_error
  | FailedToComputeHash compute_error
  | HashMismatch

text \<open>The three results of \<open>VerifyFile\<close>: computed hash, expected hash, error.\<close>

definition VerifyFile ::
  "platform \<Rightarrow> filesys \<Rightarrow> string \<Rightarrow> string \<Rightarrow> int
     \<Rightarrow> (string \<times> string \<times> verify_error option) outcome option" where
  "VerifyFile pf fs dataFilePath sha256FilePath bufferSize =
     (case ReadSHA256File pf fs sha256FilePath of
        Inl err \<Rightarrow> Some (Returns ([], [], Some (FailedToReadExpectedHash err)))
      | Inr expectedHash \<Rightarrow>
          (case ComputeFileSHA256 pf fs dataFilePath bufferSize of
             None \<Rightarrow> None
           | Some (Panics p) \<Rightarrow> Some (Panics p)
           | Some (Returns (Inl err)) \<Rightarrow>
               Some (Returns ([], expectedHash, Some (FailedToComputeHash err)))
           | Some (Returns (Inr computedHash)) \<Rightarrow>
               if ToLower (toLowerCase pf) computedHash \<noteq> ToLower (toLowerCase pf) expectedHash
               then Some (Returns (computedHash, expectedHash, Some HashMismatch))
               else Some (Returns (computedHash, expectedHash, None))))"

definition VerifyFileMatch ::
  "platform \<Rightarrow> filesys \<Rightarrow> string \<Rightarrow> string \<Rightarrow> int \<Rightarrow> bool outcome option" where
  "VerifyFileMatch pf fs dataFilePath sha256FilePath bufferSize =
     (case VerifyFile pf fs dataFilePath sha256FilePath bufferSize of
        None \<Rightarrow> None
      | Some (Panics p) \<Rightarrow> Some (Panics p)
      | Some (Returns (computed, expected, err)) \<Rightarrow> Some (Returns (err = None)))"

section \<open>Paths and numerals (packages path/filepath and fmt)\<close>

text \<open>
  \<open>filepath.Ext\<close>: the suffix of the path from the last dot of its last element, empty
  when that element has no dot.
\<close>

definition filepath_Ext :: "string \<Rightarrow> string" where
  "filepath_Ext path =
     (let elem = takeWhile (\<lambda>c. \<not> isPathSeparator c) (rev path) in
      if CHR ''.'' \<in> set elem then rev (takeWhile (\<lambda>c. c \<noteq> CHR ''.'') elem @ ''.'')
      else [])"

fun split_sep :: "string \<Rightarrow> string \<Rightarrow> string list" where
  "split_sep cur [] = [rev cur]"
| "split_sep cur (c # cs) =
     (if isPathSeparator c then rev cur # split_sep [] cs else split_sep (c # cur) cs)"

fun join_sep :: "string list \<Rightarrow> string" where
  "join_sep [] = []"
| "join_sep [e] = e"
| "join_sep (e # es) = e @ ''/'' @ join_sep es"

text \<open>
  \<open>filepath.Clean\<close>, element by element: empty elements and \<open>.\<close> are dropped,
  \<open>..\<close> removes the element before it, is dropped at the root and is kept at the start
  of a relative path.  \<open>acc\<close> holds the elements kept so far, the last one first.
\<close>

fun clean_elems :: "bool \<Rightarrow> string list \<Rightarrow> string list \<Rightarrow> string list" where
  "clean_elems rooted acc [] = rev acc"
| "clean_elems rooted acc (e # es) =
     (if e = [] \<or> e = ''.'' then clean_elems rooted acc es
      else if e = ''..'' then
        (case acc of
           [] \<Rightarrow> if rooted then clean_elems rooted [] es else clean_elems rooted [''..''] es
         | a # as \<Rightarrow>
             if a = ''..'' then clean_elems rooted (''..'' # acc) es
             else clean_elems rooted as es)
      else clean_elems rooted (e # acc) es)"

definition filepath_Clean :: "string \<Rightarrow> string" where
  "filepath_Clean path =
     (case path of
        [] \<Rightarrow> ''.''
      | c # cs \<Rightarrow>
          let rooted = isPathSeparator c;
              body = join_sep (clean_elems rooted [] (split_sep [] path))
          in if rooted then ''/'' @ body else if body = [] then ''.'' else body)"

text \<open>\<open>filepath.Join\<close> of a directory and a name.\<close>

definition filepath_Join :: "string \<Rightarrow> string \<Rightarrow> string" where
  "filepath_Join dir name =
     (if dir \<noteq> [] then filepath_Clean (dir @ ''/'' @ name)
      else if name \<noteq> [] then filepath_Clean name
      else [])"

text \<open>\<open>fmt.Sprintf("%d", n)\<close>: the decimal numeral of an integer.\<close>

definition digits :: string where
  "digits = ''0123456789''"

fun decimal :: "nat \<Rightarrow> string" where
  "decimal n =
     (if n < 10 then [digits ! n] else decimal (n div 10) @ [digits ! (n mod 10)])"

declare decimal.simps [simp del]

definition sprintf_d :: "int \<Rightarrow> string" where
  "sprintf_d i = (if i < 0 then CHR ''-'' # decimal (nat (- i)) else decimal (nat i))"

section \<open>File operations\<close>

datatype copy_error = FailedToOpenSourceFile os_error

datatype move_error =
    FailedToCopyFile copy_error
  | FailedToDeleteSourceAfterCopy os_error

datatype fileop_error =
    FailedToMoveToVerified move_error
  | FailedToMoveDataToDLQ move_error
  | FailedToMoveSHA256ToDLQ move_error
  | FailedToDeleteFile string os_error
  | FailedToGetFileSize os_error

text \<open>
  \<open>copyFile\<close> opens the source, creates (or truncates) the destination and copies the
  bytes; in this file system only opening the source can fail.
\<close>

definition copyFile :: "filesys \<Rightarrow> string \<Rightarrow> string \<Rightarrow> copy_error option \<times> filesys" where
  "copyFile fs sourcePath destPath =
     (case fs sourcePath of
        None \<Rightarrow> (Some (FailedToOpenSourceFile NotExist), fs)
      | Some c \<Rightarrow> (None, fs(destPath \<mapsto> c)))"

definition moveFile :: "filesys \<Rightarrow> string \<Rightarrow> string \<Rightarrow> move_error option \<times> filesys" where
  "moveFile fs sourcePath destPath =
     (case os_Rename fs sourcePath destPath of
        (None, fs1) \<Rightarrow> (None, fs1)
      | (Some err, fs1) \<Rightarrow>
          (case copyFile fs1 sourcePath destPath of
             (Some cerr, fs2) \<Rightarrow> (Some (FailedToCopyFile cerr), fs2)
           | (None, fs2) \<Rightarrow>
               (case os_Remove fs2 sourcePath of
                  (Some rerr, fs3) \<Rightarrow> (Some (FailedToDeleteSourceAfterCopy rerr), fs3)
                | (None, fs3) \<Rightarrow> (None, fs3))))"

text \<open>\<open>pid\<close> is the value of \<open>os.Getpid()\<close>, the same for the whole run of the process.\<close>

definition getUniqueFilePath :: "int \<Rightarrow> string \<Rightarrow> string \<Rightarrow> string" where
  "getUniqueFilePath pid dir filename =
     (let ext = filepath_Ext filename;
          nameWithoutExt = take (length filename - length ext) filename;
          timestamp = sprintf_d pid;
          uniqueName = nameWithoutExt @ ''_'' @ timestamp @ ext
      in filepath_Join dir uniqueName)"

definition MoveToVerified ::
  "int \<Rightarrow> filesys \<Rightarrow> string \<Rightarrow> string \<Rightarrow> (fileop_error + string) \<times> filesys" where
  "MoveToVerified pid fs sourceFilePath verifiedFolder =
     (let filename = filepath_Base sourceFilePath;
          destPath0 = filepath_Join verifiedFolder filename;
          destPath = (if os_Stat fs destPath0 = None
                      then getUniqueFilePath pid verifiedFolder filename else destPath0)
      in case moveFile fs sourceFilePath destPath of
           (Some err, fs1) \<Rightarrow> (Inl (FailedToMoveToVerified err), fs1)
         | (None, fs1) \<Rightarrow> (Inr destPath, fs1))"

definition MoveToDLQ ::
  "int \<Rightarrow> filesys \<Rightarrow> string \<Rightarrow> string \<Rightarrow> string \<Rightarrow> fileop_error option \<times> filesys" where
  "MoveToDLQ pid fs dataFilePath sha256FilePath dlqFolder =
     (let dataFilename = filepath_Base dataFilePath;
          dataDest0 = filepath_Join dlqFolder dataFilename;
          dataDest = (if os_Stat fs dataDest0 = None
                      then getUniqueFilePath pid dlqFolder dataFilename else dataDest0)
      in case moveFile fs dataFilePath dataDest of
           (Some err, fs1) \<Rightarrow> (Some (FailedToMoveDataToDLQ err), fs1)
         | (None, fs1) \<Rightarrow>
             let sha256Filename = filepath_Base sha256FilePath;
                 sha256Dest0 = filepath_Join dlqFolder sha256Filename;
                 sha256Dest = (if os_Stat fs1 sha256Dest0 = None
                               then getUniqueFilePath pid dlqFolder sha256Filename
                               else sha256Dest0)
             in (case moveFile fs1 sha256FilePath sha256Dest of
                   (Some err, fs2) \<Rightarrow> (Some (FailedToMoveSHA256ToDLQ err), fs2)
                 | (None, fs2) \<Rightarrow> (None, fs2)))"

definition DeleteFile :: "filesys \<Rightarrow> string \<Rightarrow> fileop_error option \<times> filesys" where
  "DeleteFile fs filePath =
     (case os_Remove fs filePath of
        (Some err, fs1) \<Rightarrow> (Some (FailedToDeleteFile filePath err), fs1)
      | (None, fs1) \<Rightarrow> (None, fs1))"

definition DeleteBothFiles :: "filesys \<Rightarrow> string \<Rightarrow> string \<Rightarrow> fileop_error option \<times> filesys" where
  "DeleteBothFiles fs dataFilePath sha256FilePath =
     (case DeleteFile fs dataFilePath of
        (Some err, fs1) \<Rightarrow> (Some err, fs1)
      | (None, fs1) \<Rightarrow> DeleteFile fs1 sha256FilePath)"

definition FileExists :: "filesys \<Rightarrow> string \<Rightarrow> bool" where
  "FileExists fs filePath = (os_Stat fs filePath = None)"

definition GetFileSize :: "filesys \<Rightarrow> string \<Rightarrow> fileop_error + int64" where
  "GetFileSize fs filePath =
     (case fs filePath of
        None \<Rightarrow> Inl (FailedToGetFileSize NotExist)
      | Some c \<Rightarrow> Inr (of_nat (length c)))"

section \<open>Worker pool\<close>

record VerificationResult =
  Job :: VerificationJob
  Success :: bool
  ErrorMessage :: "verify_error option"
  ComputedHash :: string
  ExpectedHash :: string
  Duration :: duration
  Timestamp :: time

text \<open>
  \<open>ErrorMessage\<close> holds the error value, not its text.  A row of verification.csv and
  a row of stats.csv follow, without the columns that are floating point numbers (size in
  KB, durations in seconds); their fields carry a prefix where the name is already a field
  of \<open>Statistics\<close> or \<open>VerificationResult\<close>.
\<close>

record CSVLogEntry =
  EntryTimestamp :: time
  Filename :: string
  SHA256 :: string
  SizeBytes :: int64

record StatsEntry =
  StatsTimestamp :: time
  EntryTotalProcessed :: int64
  EntrySuccessCount :: int64
  EntryFailureCount :: int64
  EntryPendingCount :: int64

definition CreateCSVLogEntry :: "VerificationResult \<Rightarrow> CSVLogEntry" where
  "CreateCSVLogEntry result =
     \<lparr>EntryTimestamp = Timestamp result,
      Filename = DataFile (JobFilePair (Job result)),
      SHA256 = ComputedHash result,
      SizeBytes = DataSize (JobFilePair (Job result))\<rparr>"

definition CreateStatsEntry :: "time \<Rightarrow> Statistics \<Rightarrow> StatsEntry" where
  "CreateStatsEntry now stats =
     \<lparr>StatsTimestamp = now,
      EntryTotalProcessed = TotalProcessed stats,
      EntrySuccessCount = SuccessCount stats,
      EntryFailureCount = FailureCount stats,
      EntryPendingCount = PendingCount stats\<rparr>"

text \<open>
  What the workers write to the error stream whatever the log level is.  The messages
  that depend on the log level change nothing else and are left out.
\<close>

datatype log_line =
    FailedToMoveToVerifiedFolder string fileop_error
  | FailedToDeleteSHA256File string fileop_error
  | FailedToMoveToDLQ string fileop_error

text \<open>
  The state the coordinator and the workers share: the tracker, the statistics, the file
  system, the buffered job channel (a list of at most \<open>queueSize\<close> jobs), the error
  stream and the two CSV files.
\<close>

record sys =
  fileTracker :: FileTracker
  statsTracker :: StatsTracker
  fsys :: filesys
  jobQueue :: "VerificationJob list"
  errorStream :: "log_line list"
  verificationCSV :: "CSVLogEntry list"
  statsCSV :: "StatsEntry list"

record WorkerPoolManager =
  queueSize :: nat
  numWorkers :: nat
  verifiedFolder :: string
  dlqFolder :: string
  removeFromSource :: bool
  processId :: int

definition SubmitJob :: "WorkerPoolManager \<Rightarrow> VerificationJob \<Rightarrow> sys \<Rightarrow> bool \<times> sys" where
  "SubmitJob wpm job s =
     (if length (jobQueue s) < queueSize wpm
      then (True, s\<lparr>jobQueue := jobQueue s @ [job]\<rparr>)
      else (False, s))"

definition handleSuccess :: "WorkerPoolManager \<Rightarrow> VerificationResult \<Rightarrow> sys \<Rightarrow> sys" where
  "handleSuccess wpm result s =
     (let pair = JobFilePair (Job result) in
      case MoveToVerified (processId wpm) (fsys s) (DataFilePath pair) (verifiedFolder wpm) of
        (Inl err, fs1) \<Rightarrow>
          s\<lparr>fsys := fs1,
            errorStream := errorStream s @ [FailedToMoveToVerifiedFolder (DataFile pair) err],
            statsTracker := IncrementFailure (Duration result) (statsTracker s)\<rparr>
      | (Inr newPath, fs1) \<Rightarrow>
          (case DeleteFile fs1 (SHA256Path pair) of
             (derr, fs2) \<Rightarrow>
               s\<lparr>fsys := fs2,
                 errorStream :=
                   (case derr of
                      Some err \<Rightarrow> errorStream s @ [FailedToDeleteSHA256File (SHA256File pair) err]
                    | None \<Rightarrow> errorStream s),
                 fileTracker := Remove (DataFile pair) (fileTracker s),
                 statsTracker := IncrementSuccess (Duration result) (statsTracker s),
                 verificationCSV := verificationCSV s @ [CreateCSVLogEntry result]\<rparr>))"

definition handleFailure ::
  "WorkerPoolManager \<Rightarrow> time \<Rightarrow> VerificationResult \<Rightarrow> sys \<Rightarrow> sys" where
  "handleFailure wpm now result s =
     (let pair = JobFilePair (Job result) in
      if time_After now (RetryDeadline (Job result)) then
        (case MoveToDLQ (processId wpm) (fsys s) (DataFilePath pair) (SHA256Path pair)
                (dlqFolder wpm) of
           (merr, fs1) \<Rightarrow>
             s\<lparr>fsys := fs1,
               errorStream :=
                 (case merr of
                    Some err \<Rightarrow> errorStream s @ [FailedToMoveToDLQ (DataFile pair) err]
                  | None \<Rightarrow> errorStream s),
               fileTracker := Remove (DataFile pair) (fileTracker s),
               statsTracker := IncrementFailure (Duration result) (statsTracker s)\<rparr>)
      else s)"

text \<open>
  The instants at which \<open>processJob\<close> reads the clock: at its start, after the
  verification (the duration), for the timestamp of the result, and in
  \<open>handleFailure\<close>.  When \<open>VerifyFile\<close> panics or never returns, so does
  \<open>processJob\<close>, and the shared state stays as it was before the call.
\<close>

record clock =
  atStart :: time
  atVerified :: time
  atResult :: time
  atFailure :: time

definition processJob ::
  "WorkerPoolManager \<Rightarrow> platform \<Rightarrow> clock \<Rightarrow> VerificationJob \<Rightarrow> sys \<Rightarrow> sys outcome option" where
  "processJob wpm pf clk job s =
     (let pair = JobFilePair job in
      if \<not> FileExists (fsys s) (DataFilePath pair) \<or> \<not> FileExists (fsys s) (SHA256Path pair)
      then Some (Returns (s\<lparr>fileTracker := Remove (DataFile pair) (fileTracker s)\<rparr>))
      else
        (case VerifyFile pf (fsys s) (DataFilePath pair) (SHA256Path pair) (BufferSize job) of
           None \<Rightarrow> None
         | Some (Panics p) \<Rightarrow> Some (Panics p)
         | Some (Returns (computedHash, expectedHash, err)) \<Rightarrow>
             let result =
               \<lparr>Job = job, Success = (err = None), ErrorMessage = err,
                ComputedHash = computedHash, ExpectedHash = expectedHash,
                Duration = time_Sub (atVerified clk) (atStart clk),
                Timestamp = atResult clk\<rparr>
             in if Success result then Some (Returns (handleSuccess wpm result s))
                else Some (Returns (handleFailure wpm (atFailure clk) result s))))"

text \<open>One worker takes the job at the head of the channel and processes it.\<close>

definition worker_step ::
  "WorkerPoolManager \<Rightarrow> platform \<Rightarrow> clock \<Rightarrow> sys \<Rightarrow> sys outcome option" where
  "worker_step wpm pf clk s =
     (case jobQueue s of
        [] \<Rightarrow> Some (Returns s)
      | job # rest \<Rightarrow> processJob wpm pf clk job (s\<lparr>jobQueue := rest\<rparr>))"

section \<open>Coordinator\<close>

text \<open>
  The loop of \<open>coordinator\<close> selects on the one-second ticker, the statistics ticker and
  the cancellation of its context.  \<open>timeout\<close> and \<open>bufSize\<close> are the configured
  \<open>RetryTimeout\<close> and \<open>BufferSize\<close>.
\<close>

datatype coordinator_event = Tick | StatsTick time | Cancelled

definition submit_ready :: "duration \<Rightarrow> int \<Rightarrow> WorkerPoolManager \<Rightarrow> sys \<Rightarrow> FilePair \<Rightarrow> sys" where
  "submit_ready timeout bufSize wpm s filePair =
     (let retryDeadline = time_Add (FirstSeen filePair) timeout;
          job = \<lparr>JobFilePair = filePair, RetryDeadline = retryDeadline, BufferSize = bufSize\<rparr>
      in snd (SubmitJob wpm job s))"

definition on_tick :: "duration \<Rightarrow> int \<Rightarrow> WorkerPoolManager \<Rightarrow> sys \<Rightarrow> sys" where
  "on_tick timeout bufSize wpm s =
     (let readyFiles = GetReadyForVerification (fileTracker s);
          s1 = foldl (submit_ready timeout bufSize wpm) s readyFiles;
          pending = (of_nat (GetPendingCount (fileTracker s1)) :: int64)
      in s1\<lparr>statsTracker := SetPendingCount pending (statsTracker s1)\<rparr>)"

definition on_stats_tick :: "time \<Rightarrow> sys \<Rightarrow> sys" where
  "on_stats_tick now s =
     (let stats = GetStatistics (statsTracker s);
          statsEntry = CreateStatsEntry now stats
      in s\<lparr>statsCSV := statsCSV s @ [statsEntry]\<rparr>)"

fun coordinator ::
  "duration \<Rightarrow> int \<Rightarrow> WorkerPoolManager \<Rightarrow> coordinator_event list \<Rightarrow> sys \<Rightarrow> sys" where
  "coordinator timeout bufSize wpm [] s = s"
| "coordinator timeout bufSize wpm (Tick # evs) s =
     coordinator timeout bufSize wpm evs (on_tick timeout bufSize wpm s)"
| "coordinator timeout bufSize wpm (StatsTick now # evs) s =
     coordinator timeout bufSize wpm evs (on_stats_tick now s)"
| "coordinator timeout bufSize wpm (Cancelled # evs) s = s"

section \<open>Example states\<close>

text \<open>
  Concrete states on which the theorems below are evaluated: a pool with process id 42, a
  complete pair \<open>a.bin\<close> first seen at instant 0 with a retry timeout of 5, the job the
  coordinator builds for it, and file systems for the scenarios.
\<close>

definition pool :: WorkerPoolManager where
  "pool = \<lparr>queueSize = 4, numWorkers = 2, verifiedFolder = ''/verified'', dlqFolder = ''/dlq'',
            removeFromSource = True, processId = 42\<rparr>"

definition pair_a :: FilePair where
  "pair_a = \<lparr>DataFile = ''a.bin'', DataFilePath = ''/src/a.bin'', SHA256File = ''a.bin.sha256'',
             SHA256Path = ''/src/a.bin.sha256'', DataSize = 8, FirstSeen = 0, HasBothFiles = True\<rparr>"

definition job_a :: VerificationJob where
  "job_a = \<lparr>JobFilePair = pair_a, RetryDeadline = 5, BufferSize = 4096\<rparr>"

definition sys_of :: "filesys \<Rightarrow> sys" where
  "sys_of fs = \<lparr>fileTracker = \<lparr>files = [(''a.bin'', pair_a)], retryTimeout = 5\<rparr>,
               statsTracker = NewStatsTracker 0, fsys = fs, jobQueue = [], errorStream = [],
               verificationCSV = [], statsCSV = []\<rparr>"

definition success_a :: VerificationResult where
  "success_a = \<lparr>Job = job_a, Success = True, ErrorMessage = None, ComputedHash = ''00'',
                ExpectedHash = ''00'', Duration = 1, Timestamp = 2\<rparr>"

definition failure_a :: VerificationResult where
  "failure_a = \<lparr>Job = job_a, Success = False, ErrorMessage = Some HashMismatch,
                ComputedHash = ''00'', ExpectedHash = ''11'', Duration = 1, Timestamp = 2\<rparr>"

text \<open>A stand-in for the hash function: every file hashes to 32 zero bytes.\<close>

definition zero_hash :: "string \<Rightarrow> byte list" where
  "zero_hash data = replicate 32 0"

text \<open>
  A platform with that hash function, no read fault, the allocation limit of a 64-bit
  Linux and a case table that holds the two runes above ASCII with an ASCII lower case.
\<close>

definition platform0 :: platform where
  "platform0 =
     \<lparr>sha256_Sum = zero_hash,
      toLowerCase = (\<lambda>r. if r = 0x130 then 0x69 else if r = 0x212A then 0x6B else r),
      readFault = (\<lambda>p. None),
      maxAlloc = 2 ^ 48\<rparr>"

definition zeros64 :: string where
  "zeros64 = ''0000000000000000000000000000000000000000000000000000000000000000''"

definition ones64 :: string where
  "ones64 = ''1111111111111111111111111111111111111111111111111111111111111111''"

text \<open>\<open>fs_ok\<close>: the checksum file matches; \<open>fs_b\<close>: it does not.\<close>

definition fs_ok :: filesys where
  "fs_ok = [''/src/a.bin'' \<mapsto> ''payload'', ''/src/a.bin.sha256'' \<mapsto> zeros64 @ ''  a.bin'']"

definition fs_b :: filesys where
  "fs_b = [''/src/a.bin'' \<mapsto> ''payload'', ''/src/a.bin.sha256'' \<mapsto> ones64 @ ''  a.bin'']"

text \<open>
  \<open>fs_nbsp\<close>: the checksum and the file name are separated by a no-break space
  (\<open>U+00A0\<close>, the bytes \<open>C2 A0\<close>).
\<close>

definition fs_nbsp :: filesys where
  "fs_nbsp = [''/src/a.bin'' \<mapsto> ''payload'',
              ''/src/a.bin.sha256'' \<mapsto> zeros64 @ CHR 0xC2 # CHR 0xA0 # ''a.bin'']"

definition clock_at :: "time \<Rightarrow> clock" where
  "clock_at t = \<lparr>atStart = 1, atVerified = 2, atResult = 2, atFailure = t\<rparr>"

text \<open>A data file whose checksum file never appears.\<close>

definition pair_c :: FilePair where
  "pair_c = \<lparr>DataFile = ''c.bin'', DataFilePath = ''/src/c.bin'', SHA256File = [],
             SHA256Path = [], DataSize = 8, FirstSeen = 0, HasBothFiles = False\<rparr>"

definition sys_c :: sys where
  "sys_c = \<lparr>fileTracker = AddOrUpdateDataFile 0 ''/src/c.bin'' 8 (NewFileTracker 5),
            statsTracker = NewStatsTracker 0, fsys = [''/src/c.bin'' \<mapsto> ''payload''],
            jobQueue = [], errorStream = [], verificationCSV = [], statsCSV = []\<rparr>"

text \<open>The verified folder already holds a file \<open>a.bin\<close>.\<close>

definition fs_d :: filesys where
  "fs_d = [''/verified/a.bin'' \<mapsto> ''old'', ''/src/a.bin'' \<mapsto> ''first'']"

section \<open>Properties of the FileTracker\<close>

lemma AddOrUpdateDataFile_twice:
  "AddOrUpdateDataFile t2 p sz (AddOrUpdateDataFile t1 p sz ft) = AddOrUpdateDataFile t1 p sz ft"
  by (auto simp: AddOrUpdateDataFile_def Let_def update_conv' split: option.splits)

lemma base_a_sha256: "filepath_Base ''/src/a.bin.sha256'' = ''a.bin.sha256''"
  by (simp add: filepath_Base_def isPathSeparator_def)

lemma base_a: "filepath_Base ''/src/a.bin'' = ''a.bin''"
  by (simp add: filepath_Base_def isPathSeparator_def)

text \<open>
  Claim C2.  After any sequence of recordData and recordChecksum calls, a pair has
  both-present set exactly when its data path and its checksum path are both known and not
  empty.  The tracker breaks this in both directions.  Recording the same checksum file
  twice, with no data file, leaves the pair with \<open>HasBothFiles = True\<close> and an empty data
  path: the second call finds the entry the first one made and takes it for the data
  file's.  Recording the checksum file and then the data file leaves both paths known and
  \<open>HasBothFiles = False\<close>.
\<close>

theorem HasBothFiles_not_reconciled:
  "run_calls (NewFileTracker 5)
     [(0, RecordChecksum ''/src/a.bin.sha256''), (1, RecordChecksum ''/src/a.bin.sha256'')]
   = Inr \<lparr>files = [(''a.bin'',
            \<lparr>DataFile = ''a.bin'', DataFilePath = [], SHA256File = ''a.bin.sha256'',
             SHA256Path = ''/src/a.bin.sha256'', DataSize = 0, FirstSeen = 0,
             HasBothFiles = True\<rparr>)],
          retryTimeout = 5\<rparr>
   \<and> run_calls (NewFileTracker 5)
       [(0, RecordChecksum ''/src/a.bin.sha256''), (1, RecordData ''/src/a.bin'' 8)]
     = Inr \<lparr>files = [(''a.bin'',
              \<lparr>DataFile = ''a.bin'', DataFilePath = ''/src/a.bin'', SHA256File = ''a.bin.sha256'',
               SHA256Path = ''/src/a.bin.sha256'', DataSize = 8, FirstSeen = 0,
               HasBothFiles = False\<rparr>)],
            retryTimeout = 5\<rparr>"
  by (simp add: NewFileTracker_def AddOrUpdateSHA256File_def AddOrUpdateDataFile_def
        base_a_sha256 base_a Let_def)

subsection \<open>What the ready list guarantees\<close>

lemma run_calls_snoc:
  "run_calls ft (cs @ [c]) = (case run_calls ft cs of Inl e \<Rightarrow> Inl e | Inr ft' \<Rightarrow> apply_call ft' c)"
  by (induction cs arbitrary: ft) (auto split: sum.splits)

lemma halves_recorded_mono:
  "halves_recorded cs ft \<Longrightarrow> halves_recorded (cs @ [c]) ft"
  unfolding halves_recorded_def by (simp, blast)

lemma halves_step:
  assumes "halves_recorded cs ft" "apply_call ft c = Inr ft'"
  shows "halves_recorded (cs @ [c]) ft'"
proof (cases c)
  case (Pair now cl)
  show ?thesis
  proof (cases cl)
    case (RecordData p sz)
    with Pair assms(2) have ft': "ft' = AddOrUpdateDataFile now p sz ft" by simp
    show ?thesis
      using assms(1) unfolding halves_recorded_def ft' Pair RecordData
      by (auto simp: AddOrUpdateDataFile_def Let_def update_conv' split: option.splits if_splits)
         (metis+)?
  next
    case (RecordChecksum p)
    with Pair assms(2) have ft': "AddOrUpdateSHA256File now p ft = Inr ft'" by simp
    show ?thesis
      using assms(1) ft' unfolding halves_recorded_def Pair RecordChecksum
      by (auto simp: AddOrUpdateSHA256File_def Let_def update_conv' checksum_key_def
            split: option.splits if_splits)
         (metis+)?
  next
    case (RemoveKey k)
    with Pair assms(2) have ft': "ft' = Remove k ft" by simp
    show ?thesis
      using assms(1) unfolding halves_recorded_def ft' Pair RemoveKey
      by (auto simp: Remove_def delete_conv' split: if_splits) (metis+)?
  qed
qed

lemma halves_run:
  "run_calls (NewFileTracker T) cs = Inr ft \<Longrightarrow> halves_recorded cs ft"
proof (induction cs arbitrary: ft rule: rev_induct)
  case Nil
  then show ?case by (auto simp: halves_recorded_def NewFileTracker_def)
next
  case (snoc c cs)
  then obtain ft0 where r: "run_calls (NewFileTracker T) cs = Inr ft0" "apply_call ft0 c = Inr ft"
    by (auto simp: run_calls_snoc split: sum.splits)
  with snoc.IH show ?case by (blast intro: halves_step)
qed


lemma distinct_step:
  assumes "distinct (map fst (files ft))" "apply_call ft c = Inr ft'"
  shows "distinct (map fst (files ft'))"
proof (cases c)
  case (Pair now cl)
  show ?thesis
  proof (cases cl)
    case (RecordData p sz)
    with Pair assms show ?thesis
      by (auto simp: AddOrUpdateDataFile_def Let_def distinct_update split: option.splits)
  next
    case (RecordChecksum p)
    with Pair assms show ?thesis
      by (auto simp: AddOrUpdateSHA256File_def Let_def distinct_update
            split: option.splits if_splits)
  next
    case (RemoveKey k)
    with Pair assms show ?thesis
      by (auto simp: Remove_def distinct_delete)
  qed
qed

lemma distinct_run:
  "run_calls (NewFileTracker T) cs = Inr ft \<Longrightarrow> distinct (map fst (files ft))"
proof (induction cs arbitrary: ft rule: rev_induct)
  case Nil
  then show ?case by (auto simp: NewFileTracker_def)
next
  case (snoc c cs)
  then obtain ft0 where r: "run_calls (NewFileTracker T) cs = Inr ft0" "apply_call ft0 c = Inr ft"
    by (auto simp: run_calls_snoc split: sum.splits)
  with snoc.IH show ?case by (blast intro: distinct_step)
qed

text \<open>
  A pair in the ready list has had both halves recorded: the run holds a recordData call
  and a recordChecksum call for its key.
\<close>

lemma ready_pairs_have_both_halves:
  assumes run: "run_calls (NewFileTracker T) cs = Inr ft"
      and ready: "pair \<in> set (GetReadyForVerification ft)"
  shows "\<exists>k. map_of (files ft) k = Some pair
           \<and> (\<exists>t p sz. (t, RecordData p sz) \<in> set cs \<and> filepath_Base p = k)
           \<and> (\<exists>t p. (t, RecordChecksum p) \<in> set cs \<and> checksum_key p = k)"
proof -
  from ready obtain k where k: "(k, pair) \<in> set (files ft)"
      "DataFilePath pair \<noteq> []" "SHA256Path pair \<noteq> []"
    by (auto simp: GetReadyForVerification_def)
  from k(1) distinct_run [OF run] have "map_of (files ft) k = Some pair" by simp
  with halves_run [OF run] k(2,3) show ?thesis
    unfolding halves_recorded_def by blast
qed

text \<open>
  When the data path is known and the checksum file is recorded afterwards, the pair is
  in the ready list.
\<close>

lemma checksum_after_data_is_ready:
  assumes "map_of (files ft) (checksum_key p) = Some pair" "DataFilePath pair \<noteq> []"
      and "7 \<le> length (filepath_Base p)"
  shows "\<exists>ft'. AddOrUpdateSHA256File now p ft = Inr ft'
           \<and> pair\<lparr>SHA256File := filepath_Base p, SHA256Path := p, HasBothFiles := True\<rparr>
               \<in> set (GetReadyForVerification ft')"
proof -
  from assms(3) have "p \<noteq> []" by (auto simp: filepath_Base_def)
  moreover have "(checksum_key p, pair\<lparr>SHA256File := filepath_Base p, SHA256Path := p, HasBothFiles := True\<rparr>)
      \<in> set (AList.update (checksum_key p)
              (pair\<lparr>SHA256File := filepath_Base p, SHA256Path := p, HasBothFiles := True\<rparr>) (files ft))"
    by (rule map_of_SomeD) (simp add: update_conv')
  ultimately show ?thesis
    using assms
    by (force simp: AddOrUpdateSHA256File_def Let_def checksum_key_def GetReadyForVerification_def)
qed

subsection \<open>The ready list and the order of arrival\<close>

text \<open>
  Claim C5.  A pair whose two halves have been recorded, in either order, is in the list
  of \<open>GetReadyForVerification\<close> until it is removed.  When the checksum file is recorded
  first and the data file second, both halves are recorded and the list is empty; in the
  other order the pair is in the list.
\<close>

theorem checksum_first_pair_not_ready:
  "(\<exists>ft pair. run_calls (NewFileTracker 5)
                 [(0, RecordChecksum ''/src/a.bin.sha256''), (1, RecordData ''/src/a.bin'' 8)]
               = Inr ft
        \<and> GetFilePair ''a.bin'' ft = Some pair
        \<and> DataFilePath pair = ''/src/a.bin'' \<and> SHA256Path pair = ''/src/a.bin.sha256''
        \<and> GetReadyForVerification ft = [])
   \<and> (\<exists>ft pair. run_calls (NewFileTracker 5)
                 [(0, RecordData ''/src/a.bin'' 8), (1, RecordChecksum ''/src/a.bin.sha256'')]
               = Inr ft
        \<and> GetFilePair ''a.bin'' ft = Some pair
        \<and> GetReadyForVerification ft = [pair])"
  by (simp add: NewFileTracker_def AddOrUpdateSHA256File_def AddOrUpdateDataFile_def
        base_a_sha256 base_a Let_def GetFilePair_def GetReadyForVerification_def)

text \<open>
  Claim C6.  Calling recordData or recordChecksum twice with the same arguments leaves
  the registry as one call does.  This holds for \<open>AddOrUpdateDataFile\<close>.  It fails for
  \<open>AddOrUpdateSHA256File\<close> on a key that is not tracked yet: the first call creates the
  pair with \<open>HasBothFiles = False\<close> and the second call sets it to \<open>True\<close>.
\<close>

theorem AddOrUpdateSHA256File_twice_differs:
  "(\<forall>t1 t2 p sz ft.
       AddOrUpdateDataFile t2 p sz (AddOrUpdateDataFile t1 p sz ft) = AddOrUpdateDataFile t1 p sz ft)
   \<and> (\<exists>ft1 ft2.
         AddOrUpdateSHA256File 0 ''/src/a.bin.sha256'' (NewFileTracker 5) = Inr ft1
       \<and> AddOrUpdateSHA256File 1 ''/src/a.bin.sha256'' ft1 = Inr ft2
       \<and> map (\<lambda>(k, pair). (k, HasBothFiles pair)) (files ft1) = [(''a.bin'', False)]
       \<and> map (\<lambda>(k, pair). (k, HasBothFiles pair)) (files ft2) = [(''a.bin'', True)]
       \<and> ft2 \<noteq> ft1)"
  by (simp add: AddOrUpdateDataFile_twice NewFileTracker_def AddOrUpdateSHA256File_def
        base_a_sha256 Let_def)

text \<open>
  Claim C9.  \<open>AddOrUpdateSHA256File\<close> returns a tracker exactly for the paths whose base
  name has at least 7 bytes: with a shorter base name the slice is out of range and the
  call panics.  Otherwise the key is the base name without its last 7 bytes, whatever
  they are, and the pair stored under it records the checksum file; a file named exactly
  \<open>.sha256\<close> is tracked under the empty key.
\<close>

theorem AddOrUpdateSHA256File_total_iff:
  "(AddOrUpdateSHA256File now p ft = Inl SliceBoundsOutOfRange \<longleftrightarrow> length (filepath_Base p) < 7)
   \<and> ((\<exists>ft'. AddOrUpdateSHA256File now p ft = Inr ft') \<longleftrightarrow> 7 \<le> length (filepath_Base p))
   \<and> (7 \<le> length (filepath_Base p) \<longrightarrow>
        (\<exists>ft' pair. AddOrUpdateSHA256File now p ft = Inr ft'
            \<and> map_of (files ft') (take (length (filepath_Base p) - 7) (filepath_Base p)) = Some pair
            \<and> SHA256File pair = filepath_Base p \<and> SHA256Path pair = p
            \<and> fst ` set (files ft')
                = insert (take (length (filepath_Base p) - 7) (filepath_Base p))
                    (fst ` set (files ft))))
   \<and> (filepath_Base p = ''.sha256'' \<longrightarrow>
        (\<exists>ft' pair. AddOrUpdateSHA256File now p ft = Inr ft' \<and> map_of (files ft') [] = Some pair
            \<and> SHA256File pair = ''.sha256'' \<and> SHA256Path pair = p))"
proof -
  let ?base = "filepath_Base p"
  have panics: "AddOrUpdateSHA256File now p ft = Inl SliceBoundsOutOfRange" if "length ?base < 7"
    using that by (simp add: AddOrUpdateSHA256File_def Let_def)
  have stores: "\<exists>ft' pair. AddOrUpdateSHA256File now p ft = Inr ft'
            \<and> map_of (files ft') (take (length ?base - 7) ?base) = Some pair
            \<and> SHA256File pair = ?base \<and> SHA256Path pair = p
            \<and> fst ` set (files ft') = insert (take (length ?base - 7) ?base) (fst ` set (files ft))"
    if "7 \<le> length ?base"
    using that
    by (cases "map_of (files ft) (take (length ?base - 7) ?base)")
       (simp_all add: AddOrUpdateSHA256File_def Let_def update_conv' dom_update)
  have empty_key: "take (length ?base - 7) ?base = []" if "?base = ''.sha256''"
    using that by simp
  show ?thesis
  proof (intro conjI impI)
    show "AddOrUpdateSHA256File now p ft = Inl SliceBoundsOutOfRange \<longleftrightarrow> length ?base < 7"
      using panics stores by (cases "length ?base < 7") auto
    show "(\<exists>ft'. AddOrUpdateSHA256File now p ft = Inr ft') \<longleftrightarrow> 7 \<le> length ?base"
      using panics stores by (cases "length ?base < 7") auto
    show "\<exists>ft' pair. AddOrUpdateSHA256File now p ft = Inr ft'
            \<and> map_of (files ft') (take (length ?base - 7) ?base) = Some pair
            \<and> SHA256File pair = ?base \<and> SHA256Path pair = p
            \<and> fst ` set (files ft') = insert (take (length ?base - 7) ?base) (fst ` set (files ft))"
      if "7 \<le> length ?base"
      using that by (rule stores)
    show "\<exists>ft' pair. AddOrUpdateSHA256File now p ft = Inr ft' \<and> map_of (files ft') [] = Some pair
            \<and> SHA256File pair = ''.sha256'' \<and> SHA256Path pair = p"
      if "?base = ''.sha256''"
      using stores empty_key that by fastforce
  qed
qed

text \<open>
  A file named \<open>.sha256\<close>, a base name of 5 bytes, and a base name of 8 bytes that does
  not end in \<open>.sha256\<close> (its key is the first byte).
\<close>

theorem AddOrUpdateSHA256File_total_iff_witness:
  "filepath_Base ''/src/.sha256'' = ''.sha256''
   \<and> (\<exists>ft' pair. AddOrUpdateSHA256File 0 ''/src/.sha256'' (NewFileTracker 5) = Inr ft'
          \<and> map_of (files ft') [] = Some pair
          \<and> SHA256File pair = ''.sha256'' \<and> SHA256Path pair = ''/src/.sha256'')
   \<and> length (filepath_Base ''/src/a.sha'') < 7
   \<and> AddOrUpdateSHA256File 0 ''/src/a.sha'' (NewFileTracker 5) = Inl SliceBoundsOutOfRange
   \<and> 7 \<le> length (filepath_Base ''/src/abcdefgh'')
   \<and> (\<exists>ft' pair. AddOrUpdateSHA256File 0 ''/src/abcdefgh'' (NewFileTracker 5) = Inr ft'
          \<and> map_of (files ft') ''a'' = Some pair \<and> SHA256File pair = ''abcdefgh'')"
  using AddOrUpdateSHA256File_total_iff [of 0 "''/src/.sha256''" "NewFileTracker 5"]
        AddOrUpdateSHA256File_total_iff [of 0 "''/src/a.sha''" "NewFileTracker 5"]
        AddOrUpdateSHA256File_total_iff [of 0 "''/src/abcdefgh''" "NewFileTracker 5"]
  by (simp add: filepath_Base_def isPathSeparator_def AddOrUpdateSHA256File_def
        NewFileTracker_def Let_def)

section \<open>Properties of the StatsTracker\<close>

lemma sint_of_nat_small: "n < 2 ^ 63 \<Longrightarrow> sint (of_nat n :: 64 word) = int n"
proof -
  assume "n < 2 ^ 63"
  then have "int n < 2 ^ 63" by (metis of_nat_less_iff of_nat_numeral of_nat_power)
  then show ?thesis by (simp add: signed_of_nat signed_take_bit_int_eq_self)
qed

lemma run_stats_snoc: "run_stats s (ops @ [x]) = apply_stats_op (run_stats s ops) x"
  by (simp add: run_stats_def)

text \<open>
  After any run, the success counter is the number \<open>a\<close> of successes since the last
  reset, the failure counter the number \<open>b\<close> of failures, and the total is \<open>a + b\<close>,
  all modulo \<open>2 ^ 64\<close>.
\<close>

lemma stats_counts:
  "\<exists>a b. a + b \<le> length ops
     \<and> successCount (run_stats (NewStatsTracker t0) ops) = of_nat a
     \<and> failureCount (run_stats (NewStatsTracker t0) ops) = of_nat b
     \<and> totalProcessed (run_stats (NewStatsTracker t0) ops) = of_nat (a + b)"
proof (induction ops rule: rev_induct)
  case Nil
  show ?case by (simp add: run_stats_def NewStatsTracker_def)
next
  case (snoc x xs)
  then obtain a b where ab: "a + b \<le> length xs"
     "successCount (run_stats (NewStatsTracker t0) xs) = of_nat a"
     "failureCount (run_stats (NewStatsTracker t0) xs) = of_nat b"
     "totalProcessed (run_stats (NewStatsTracker t0) xs) = of_nat (a + b)" by blast
  show ?case
  proof (cases x)
    case (OpIncrementSuccess d)
    with ab show ?thesis
      by (intro exI[of _ "Suc a"] exI[of _ b]) (simp add: run_stats_snoc IncrementSuccess_def)
  next
    case (OpIncrementFailure d)
    with ab show ?thesis
      by (intro exI[of _ a] exI[of _ "Suc b"]) (simp add: run_stats_snoc IncrementFailure_def)
  next
    case (OpSetPendingCount n)
    with ab show ?thesis
      by (intro exI[of _ a] exI[of _ b]) (simp add: run_stats_snoc SetPendingCount_def)
  next
    case OpIncrementPending
    with ab show ?thesis
      by (intro exI[of _ a] exI[of _ b]) (simp add: run_stats_snoc IncrementPending_def)
  next
    case OpDecrementPending
    with ab show ?thesis
      by (intro exI[of _ a] exI[of _ b]) (simp add: run_stats_snoc DecrementPending_def)
  next
    case (OpReset now)
    with ab show ?thesis
      by (intro exI[of _ 0] exI[of _ 0]) (simp add: run_stats_snoc Reset_def)
  qed
qed

text \<open>
  Claim C10.  In every state a \<open>StatsTracker\<close> reaches from \<open>NewStatsTracker\<close> by its
  operations, \<open>totalProcessed = successCount + failureCount\<close>, and so does every
  snapshot of \<open>GetStatistics\<close>.  The equation holds in the 64-bit arithmetic of the
  counters after any run; in a run of fewer than \<open>2 ^ 63\<close> operations no counter has
  wrapped, the three are not negative and the equation holds for their signed values.
\<close>

theorem totalProcessed_is_success_plus_failure:
  "let s = run_stats (NewStatsTracker t0) ops; st = GetStatistics s in
     totalProcessed s = successCount s + failureCount s
   \<and> TotalProcessed st = SuccessCount st + FailureCount st
   \<and> (length ops < 2 ^ 63 \<longrightarrow>
        0 \<le> sint (successCount s) \<and> 0 \<le> sint (failureCount s) \<and> 0 \<le> sint (totalProcessed s)
      \<and> sint (totalProcessed s) = sint (successCount s) + sint (failureCount s))"
proof -
  obtain a b where ab: "a + b \<le> length ops"
     "successCount (run_stats (NewStatsTracker t0) ops) = of_nat a"
     "failureCount (run_stats (NewStatsTracker t0) ops) = of_nat b"
     "totalProcessed (run_stats (NewStatsTracker t0) ops) = of_nat (a + b)"
    using stats_counts [of ops t0] by blast
  have eq: "totalProcessed (run_stats (NewStatsTracker t0) ops)
            = successCount (run_stats (NewStatsTracker t0) ops)
              + failureCount (run_stats (NewStatsTracker t0) ops)"
    using ab by simp
  have signed: "sint (successCount (run_stats (NewStatsTracker t0) ops)) = int a
              \<and> sint (failureCount (run_stats (NewStatsTracker t0) ops)) = int b
              \<and> sint (totalProcessed (run_stats (NewStatsTracker t0) ops)) = int (a + b)"
    if "length ops < 2 ^ 63"
  proof -
    from that ab(1) have "a < 2 ^ 63" "b < 2 ^ 63" "a + b < 2 ^ 63" by linarith+
    then show ?thesis
      unfolding ab by (intro conjI sint_of_nat_small)
  qed
  show ?thesis
    unfolding Let_def using eq signed by (simp add: GetStatistics_def)
qed

theorem totalProcessed_is_success_plus_failure_witness:
  "length [OpIncrementSuccess 5, OpIncrementFailure 7, OpSetPendingCount 3, OpIncrementSuccess 2]
     < (2::nat) ^ 63
   \<and> GetStatistics (run_stats (NewStatsTracker 0)
        [OpIncrementSuccess 5, OpIncrementFailure 7, OpSetPendingCount 3, OpIncrementSuccess 2])
      = \<lparr>TotalProcessed = 3, SuccessCount = 2, FailureCount = 1, PendingCount = 3,
         TotalDuration = 14, StartTime = 0\<rparr>
   \<and> sint (totalProcessed (run_stats (NewStatsTracker 0)
        [OpIncrementSuccess 5, OpIncrementFailure 7, OpSetPendingCount 3, OpIncrementSuccess 2]))
      = 3"
  using totalProcessed_is_success_plus_failure
          [of 0 "[OpIncrementSuccess 5, OpIncrementFailure 7, OpSetPendingCount 3,
                  OpIncrementSuccess 2]"]
  by (simp add: run_stats_def NewStatsTracker_def IncrementSuccess_def IncrementFailure_def
        SetPendingCount_def GetStatistics_def)

section \<open>Properties of the verification\<close>

subsection \<open>Decoding and white space\<close>

lemma decode_width:
  "DecodeRuneInString c cs = (r, w) \<Longrightarrow> 1 \<le> w \<and> w - 1 \<le> length cs"
  by (auto simp: DecodeRuneInString_def Let_def split: if_splits list.splits)

lemma list_cases4:
  obtains (Nil) "t = []" | (One) a where "t = [a]" | (Two) a b where "t = [a, b]"
        | (More) a b c r where "t = a # b # c # r"
  by (metis list.exhaust)

lemma decode_stable:
  assumes "DecodeRuneInString c (t1 @ t2) = (r, w)" "w - 1 \<le> length t1"
  shows "DecodeRuneInString c t1 = (r, w)"
proof (cases t1 rule: list_cases4)
  case Nil
  with assms show ?thesis
    by (auto simp: DecodeRuneInString_def Let_def split: if_splits list.splits)
next
  case (One a)
  with assms show ?thesis
    by (auto simp: DecodeRuneInString_def Let_def split: if_splits list.splits)
next
  case (Two a b)
  with assms show ?thesis
    by (auto simp: DecodeRuneInString_def Let_def split: if_splits list.splits)
next
  case (More a b c r)
  with assms show ?thesis
    by (auto simp: DecodeRuneInString_def Let_def split: if_splits list.splits)
qed


lemma runes_bytes: "bytes_of (runes s) = s"
  by (induction s rule: runes.induct) (auto simp: bytes_of_def split: prod.splits)

lemma runes_nonempty: "x \<in> set (runes s) \<Longrightarrow> snd x \<noteq> []"
  by (induction s rule: runes.induct) (auto split: prod.splits)

lemma decoded_runes: "decoded (runes s)"
  by (simp add: decoded_def runes_bytes)

lemma decoded_nonempty: "decoded rs \<Longrightarrow> x \<in> set rs \<Longrightarrow> snd x \<noteq> []"
  unfolding decoded_def using runes_nonempty by metis

lemma decoded_Cons_iff:
  "decoded ((r, bs) # rs) \<longleftrightarrow>
     (\<exists>c bs'. bs = c # bs' \<and> DecodeRuneInString c (bs' @ bytes_of rs) = (r, Suc (length bs'))
        \<and> decoded rs)"
proof
  assume d: "decoded ((r, bs) # rs)"
  then have "bs \<noteq> []" using decoded_nonempty [of "(r, bs) # rs" "(r, bs)"] by simp
  then obtain c bs' where bs: "bs = c # bs'" by (cases bs) auto
  obtain r' w where dec: "DecodeRuneInString c (bs' @ bytes_of rs) = (r', w)" by fastforce
  from d have eq: "runes (c # bs' @ bytes_of rs) = (r, c # bs') # rs"
    by (simp add: decoded_def bytes_of_def bs)
  with dec have r: "r' = r" and tk: "take (w - 1) (bs' @ bytes_of rs) = bs'"
    and rest: "runes (drop (w - 1) (bs' @ bytes_of rs)) = rs" by auto
  from decode_width [OF dec] have w: "1 \<le> w" "w - 1 \<le> length (bs' @ bytes_of rs)" by auto
  from tk w have len: "length bs' = w - 1"
    by (metis length_take min.absorb2)
  then have "drop (w - 1) (bs' @ bytes_of rs) = bytes_of rs" by simp
  with rest have "decoded rs" by (simp add: decoded_def)
  moreover from len w have "w = Suc (length bs')" by simp
  ultimately show "\<exists>c bs'. bs = c # bs' \<and> DecodeRuneInString c (bs' @ bytes_of rs) = (r, Suc (length bs'))
        \<and> decoded rs" using bs dec r by auto
next
  assume "\<exists>c bs'. bs = c # bs' \<and> DecodeRuneInString c (bs' @ bytes_of rs) = (r, Suc (length bs'))
        \<and> decoded rs"
  then show "decoded ((r, bs) # rs)"
    by (auto simp: decoded_def bytes_of_def)
qed

lemma decoded_tl: "decoded (x # rs) \<Longrightarrow> decoded rs"
  by (cases x) (auto simp: decoded_Cons_iff)

lemma decoded_butlast: "decoded (rs @ [x]) \<Longrightarrow> decoded rs"
proof (induction rs)
  case Nil
  show ?case by (simp add: decoded_def bytes_of_def)
next
  case (Cons a rs)
  obtain r bs where a: "a = (r, bs)" by (cases a)
  from Cons.prems obtain c bs' where bs: "bs = c # bs'"
      and dec: "DecodeRuneInString c (bs' @ bytes_of (rs @ [x])) = (r, Suc (length bs'))"
      and d: "decoded (rs @ [x])"
    by (auto simp: a decoded_Cons_iff)
  from d have "decoded rs" by (rule Cons.IH)
  moreover have "DecodeRuneInString c (bs' @ bytes_of rs) = (r, Suc (length bs'))"
    using decode_stable [of c "bs' @ bytes_of rs" "snd x" r "Suc (length bs')"] dec
    by (simp add: bytes_of_def)
  ultimately show ?case by (simp add: a decoded_Cons_iff bs)
qed

lemma decoded_dropWhile: "decoded rs \<Longrightarrow> decoded (dropWhile P rs)"
  by (induction rs) (auto dest: decoded_tl)

lemma decoded_dropWhile_end: "decoded rs \<Longrightarrow> decoded (rev (dropWhile P (rev rs)))"
  by (induction rs rule: rev_induct) (auto dest: decoded_butlast)

lemma fields_from_spaces:
  "\<forall>x \<in> set ws. isSpaceRune x \<Longrightarrow> fields_from cur ws = (if cur = [] then [] else [cur])"
  by (induction ws arbitrary: cur) auto

lemma fields_from_append_spaces:
  "\<forall>x \<in> set ws. isSpaceRune x \<Longrightarrow> fields_from cur (xs @ ws) = fields_from cur xs"
  by (induction xs arbitrary: cur) (auto simp: fields_from_spaces)

lemma fields_from_dropWhile: "fields_from [] (dropWhile isSpaceRune rs) = fields_from [] rs"
  by (induction rs) auto

lemma fields_from_trim:
  "fields_from [] (rev (dropWhile isSpaceRune (rev (dropWhile isSpaceRune rs)))) = fields_from [] rs"
proof -
  let ?d = "dropWhile isSpaceRune rs"
  have split: "?d = rev (dropWhile isSpaceRune (rev ?d)) @ rev (takeWhile isSpaceRune (rev ?d))"
    by (metis rev_append rev_rev_ident takeWhile_dropWhile_id)
  have sp: "\<forall>x \<in> set (rev (takeWhile isSpaceRune (rev ?d))). isSpaceRune x"
    by (auto dest: set_takeWhileD)
  have "fields_from [] (rev (dropWhile isSpaceRune (rev ?d))) = fields_from [] ?d"
    using fields_from_append_spaces [OF sp, of "[]" "rev (dropWhile isSpaceRune (rev ?d))"] split
    by simp
  then show ?thesis by (simp add: fields_from_dropWhile)
qed

lemma Fields_TrimSpace: "Fields (TrimSpace s) = Fields s"
proof -
  let ?t = "rev (dropWhile isSpaceRune (rev (dropWhile isSpaceRune (runes s))))"
  have "decoded ?t"
    by (intro decoded_dropWhile_end decoded_dropWhile decoded_runes)
  then have "runes (bytes_of ?t) = ?t" by (simp add: decoded_def)
  then show ?thesis by (simp add: Fields_def TrimSpace_def fields_from_trim)
qed

lemma fields_from_nonempty_cur: "cur \<noteq> [] \<Longrightarrow> fields_from cur rs \<noteq> []"
  by (induction rs arbitrary: cur) auto

lemma fields_from_Nil_iff:
  "\<forall>x \<in> set rs. snd x \<noteq> [] \<Longrightarrow> fields_from [] rs = [] \<longleftrightarrow> (\<forall>x \<in> set rs. isSpaceRune x)"
  by (induction rs) (auto simp: fields_from_nonempty_cur)

lemma bytes_of_Nil_iff: "\<forall>x \<in> set rs. snd x \<noteq> [] \<Longrightarrow> bytes_of rs = [] \<longleftrightarrow> rs = []"
  by (cases rs) (auto simp: bytes_of_def)

lemma TrimSpace_Nil_iff: "TrimSpace s = [] \<longleftrightarrow> Fields s = []"
proof -
  let ?d = "dropWhile isSpaceRune (runes s)"
  let ?t = "rev (dropWhile isSpaceRune (rev ?d))"
  have ne: "\<forall>x \<in> set (runes s). snd x \<noteq> []" using runes_nonempty by blast
  have sub: "set ?t \<subseteq> set (runes s)"
    by (auto dest!: set_dropWhileD)
  have "TrimSpace s = [] \<longleftrightarrow> ?t = []"
    unfolding TrimSpace_def using ne sub by (intro bytes_of_Nil_iff) blast
  also have "?t = [] \<longleftrightarrow> ?d = []"
  proof
    assume a: "?t = []"
    show "?d = []"
    proof (rule ccontr)
      assume n: "?d \<noteq> []"
      then have "\<not> isSpaceRune (hd ?d)" by (rule hd_dropWhile)
      moreover from n have "hd ?d \<in> set (rev ?d)" by simp
      ultimately show False using a by (auto simp: dropWhile_eq_Nil_conv)
    qed
  next
    assume d: "?d = []"
    show "?t = []" unfolding d by simp
  qed
  also have "?d = [] \<longleftrightarrow> (\<forall>x \<in> set (runes s). isSpaceRune x)"
    by (simp only: dropWhile_eq_Nil_conv)
  also have "\<dots> \<longleftrightarrow> Fields s = []"
    unfolding Fields_def using fields_from_Nil_iff [OF ne] by simp
  finally show ?thesis .
qed



subsection \<open>Lower case\<close>

lemma decode_ascii: "(of_char c :: nat) < 128 \<Longrightarrow> DecodeRuneInString c cs = (of_char c, 1)"
  by (simp add: DecodeRuneInString_def)

lemma runes_ascii_Cons:
  "(of_char c :: nat) < 128 \<Longrightarrow> runes (c # cs) = (of_char c, [c]) # runes cs"
  by (simp add: decode_ascii)

lemma ToLower_ascii_lower:
  "\<forall>c \<in> set s. (of_char c :: nat) < 128 \<and> \<not> upper_byte c \<Longrightarrow> ToLower t s = s"
proof (induction s)
  case Nil
  show ?case by (simp add: ToLower_def strings_Map_def)
next
  case (Cons c s)
  then have c: "(of_char c :: nat) < 128" "\<not> upper_byte c" and IH: "ToLower t s = s" by auto
  from c have "unicode_ToLower t (of_char c) = of_char c"
    by (auto simp: unicode_ToLower_def upper_byte_def)
  moreover from c have "(of_char c :: nat) \<noteq> RuneError" by (simp add: RuneError_def)
  ultimately show ?case
    using IH c(1) by (simp add: ToLower_def strings_Map_def runes_ascii_Cons del: runes.simps)
qed

lemma decode_segment:
  "DecodeRuneInString c cs = (r, w) \<Longrightarrow>
     (r < 128 \<and> w = 1 \<and> r = of_char c)
     \<or> (128 \<le> (of_char c :: nat) \<and> (\<forall>b \<in> set (take (w - 1) cs). 128 \<le> (of_char b :: nat)))"
  by (auto simp: DecodeRuneInString_def Let_def second_ok_def continuation_def
        split: if_splits list.splits)

lemma runes_segment:
  "x \<in> set (runes s) \<Longrightarrow>
     (fst x < 128 \<and> snd x = [char_of (fst x)]) \<or> (\<forall>b \<in> set (snd x). 128 \<le> (of_char b :: nat))"
proof (induction s arbitrary: x rule: runes.induct)
  case 1
  then show ?case by simp
next
  case (2 c cs)
  obtain r w where dec: "DecodeRuneInString c cs = (r, w)" by fastforce
  from 2(2) dec have "x = (r, c # take (w - 1) cs) \<or> x \<in> set (runes (drop (w - 1) cs))" by auto
  then show ?case
  proof
    assume x: "x = (r, c # take (w - 1) cs)"
    from decode_segment [OF dec] show ?thesis
      by (auto simp: x)
  next
    assume "x \<in> set (runes (drop (w - 1) cs))"
    with 2(1) [OF dec [symmetric]] show ?thesis by blast
  qed
qed

lemma EncodeRune_bytes:
  "b \<in> set (EncodeRune r) \<Longrightarrow> (r < 128 \<and> of_char b = r) \<or> 128 \<le> (of_char b :: nat)"
proof -
  assume b: "b \<in> set (EncodeRune r)"
  have c2: "r \<le> 0x7FF \<Longrightarrow> 0xC0 + r div 64 < 256" by arith
  have c3: "r \<le> 0xFFFF \<Longrightarrow> 0xE0 + r div 4096 < 256" by arith
  have c4: "r \<le> 0x10FFFF \<Longrightarrow> 0xF0 + r div 262144 < 256" by arith
  have cx: "\<And>n :: nat. 0x80 + n mod 64 < 256" by arith
  show ?thesis
  proof (cases "r \<le> 0x7F")
    case True
    with b show ?thesis by (simp add: EncodeRune_def)
  next
    case False
    with b c2 c3 c4 cx [of r] cx [of "r div 64"] cx [of "r div 4096"] show ?thesis
      by (auto simp: EncodeRune_def split: if_splits)
  qed
qed

lemma unicode_ToLower_no_upper:
  "no_ascii_upper t \<Longrightarrow> \<not> (65 \<le> unicode_ToLower t r \<and> unicode_ToLower t r \<le> 90)"
  by (auto simp: unicode_ToLower_def no_ascii_upper_def)

lemma EncodeRune_no_upper:
  "\<not> (65 \<le> r \<and> r \<le> 90) \<Longrightarrow> b \<in> set (EncodeRune r) \<Longrightarrow> \<not> upper_byte b"
  using EncodeRune_bytes [of b r] by (auto simp: upper_byte_def)

lemma map_rest_no_upper:
  "no_ascii_upper t \<Longrightarrow> b \<in> set (map_rest (unicode_ToLower t) rs) \<Longrightarrow> \<not> upper_byte b"
  by (auto simp: map_rest_def dest: EncodeRune_no_upper [OF unicode_ToLower_no_upper])

lemma segment_unchanged_no_upper:
  assumes seg: "(fst x < 128 \<and> snd x = [char_of (fst x)]) \<or> (\<forall>b \<in> set (snd x). 128 \<le> (of_char b :: nat))"
      and same: "unicode_ToLower t (fst x) = fst x"
      and b: "b \<in> set (snd x)"
  shows "\<not> upper_byte b"
  using seg
proof
  assume a: "fst x < 128 \<and> snd x = [char_of (fst x)]"
  with b have "b = char_of (fst x)" by simp
  with a have ob: "(of_char b :: nat) = fst x" by simp
  from same a have "\<not> (65 \<le> fst x \<and> fst x \<le> 90)"
    by (auto simp: unicode_ToLower_def split: if_splits)
  with ob show ?thesis by (simp add: upper_byte_def)
next
  assume "\<forall>b \<in> set (snd x). 128 \<le> (of_char b :: nat)"
  with b show ?thesis by (auto simp: upper_byte_def)
qed

lemma map_scan_no_upper:
  assumes t: "no_ascii_upper t"
      and segs: "\<forall>x \<in> set rs. (fst x < 128 \<and> snd x = [char_of (fst x)])
                   \<or> (\<forall>b \<in> set (snd x). 128 \<le> (of_char b :: nat))"
      and b: "b \<in> set (map_scan (unicode_ToLower t) rs)"
  shows "\<not> upper_byte b"
  using segs b
proof (induction rs)
  case Nil
  then show ?case by simp
next
  case (Cons x rs)
  show ?case
  proof (cases "unicode_ToLower t (fst x) = fst x \<and> \<not> (fst x = RuneError \<and> length (snd x) = 1)")
    case True
    with Cons.prems(2) have "b \<in> set (snd x) \<or> b \<in> set (map_scan (unicode_ToLower t) rs)"
      by auto
    then show ?thesis
    proof
      assume "b \<in> set (snd x)"
      with Cons.prems(1) True show ?thesis
        using segment_unchanged_no_upper [of x t b] by auto
    next
      assume "b \<in> set (map_scan (unicode_ToLower t) rs)"
      with Cons show ?thesis by auto
    qed
  next
    case False
    with Cons.prems(2) have "b \<in> set (EncodeRune (unicode_ToLower t (fst x)))
        \<or> b \<in> set (map_rest (unicode_ToLower t) rs)"
      by auto
    then show ?thesis
      using EncodeRune_no_upper [OF unicode_ToLower_no_upper [OF t]] map_rest_no_upper [OF t]
      by blast
  qed
qed

lemma ToLower_no_upper:
  "no_ascii_upper t \<Longrightarrow> b \<in> set (ToLower t s) \<Longrightarrow> \<not> upper_byte b"
  unfolding ToLower_def strings_Map_def
  using map_scan_no_upper [of t "runes s" b] runes_segment [of _ s] by blast

subsection \<open>The read loop\<close>

lemma read_loop_all:
  "0 < n \<Longrightarrow> read_loop n (rest, None) hashed = Some (Inr (hashed @ rest))"
proof (induction rest arbitrary: hashed rule: length_induct)
  case (1 rest)
  show ?case
  proof (cases "rest = []")
    case True
    with 1(2) show ?thesis by (subst read_loop.simps) (simp add: file_Read_def)
  next
    case False
    with 1(2) have "length (drop n rest) < length rest" by simp
    with 1 have "read_loop n (drop n rest, None) (hashed @ take n rest)
                   = Some (Inr ((hashed @ take n rest) @ drop n rest))" by blast
    with False 1(2) show ?thesis by (subst read_loop.simps) (simp add: file_Read_def)
  qed
qed

lemma read_loop_Some_pos:
  assumes "read_loop n f hashed = Some y"
  shows "0 < n"
proof (rule read_loop.raw_induct [where P = "\<lambda>n f hashed y. 0 < n", rotated, OF assms], goal_cases)
  case (1 g n f hashed y)
  show ?case
  proof (rule ccontr)
    assume "\<not> 0 < n"
    then have n: "n = 0" by simp
    from 1(2) have "g 0 f hashed = Some y" by (simp add: n file_Read_def split: prod.splits)
    from 1(1) [OF this] show False by simp
  qed
qed

lemma read_loop_zero: "read_loop 0 f hashed = None"
proof (cases "read_loop 0 f hashed")
  case None
  then show ?thesis .
next
  case (Some y)
  then have "0 < (0::nat)" by (rule read_loop_Some_pos)
  then show ?thesis by simp
qed

lemma read_loop_fault:
  "0 < n \<Longrightarrow> k < length rest \<Longrightarrow> read_loop n (rest, Some k) hashed = Some (Inl InputOutputError)"
proof (induction k arbitrary: rest hashed rule: less_induct)
  case (less k)
  show ?case
  proof (cases "k = 0")
    case True
    with less.prems show ?thesis by (subst read_loop.simps) (auto simp: file_Read_def)
  next
    case False
    let ?m = "min n k"
    from False less.prems have m: "0 < ?m" "?m \<le> k" by auto
    then have "k - ?m < k" using False by simp
    moreover from less.prems m have "k - ?m < length (drop ?m rest)" by simp
    ultimately have "read_loop n (drop ?m rest, Some (k - ?m)) (hashed @ take ?m rest)
        = Some (Inl InputOutputError)" using less.IH less.prems(1) by blast
    with False less.prems m show ?thesis
      by (subst read_loop.simps) (auto simp: file_Read_def)
  qed
qed


subsection \<open>Hexadecimal\<close>

lemma lower_hex_fromHexChar: "lower_hex c \<Longrightarrow> fromHexChar c \<noteq> None"
  by (auto simp: lower_hex_def fromHexChar_def Let_def)

lemma hextable_lower_hex: "i < 16 \<Longrightarrow> lower_hex (hextable ! i)"
proof -
  have "\<forall>c \<in> set hextable. lower_hex c" by (simp add: hextable_def lower_hex_def)
  moreover assume "i < 16"
  then have "hextable ! i \<in> set hextable" by (intro nth_mem) (simp add: hextable_def)
  ultimately show ?thesis by blast
qed

lemma hi_nibble: "unat (drop_bit 4 (v :: byte)) < 16"
proof -
  have "unat v < 256" using unsigned_less [of v, where 'a = nat] by simp
  then have "unat v div 16 < 16" by arith
  then show ?thesis by (simp add: drop_bit_eq_div unat_div)
qed

lemma lo_nibble: "unat ((v :: byte) AND 0x0f) < 16"
proof -
  have "unat (v AND 15) \<le> unat (15 :: byte)"
    by (rule word_and_le1 [THEN word_le_nat_alt [THEN iffD1]])
  then show ?thesis by simp
qed

lemma EncodeToString_lower_hex: "\<forall>c \<in> set (EncodeToString src). lower_hex c"
  by (auto simp: EncodeToString_def hextable_lower_hex hi_nibble lo_nibble)

lemma length_EncodeToString: "length (EncodeToString src) = 2 * length src"
  by (induction src) (simp_all add: EncodeToString_def)

lemma DecodeString_ok:
  "even (length s) \<Longrightarrow> \<forall>c \<in> set s. fromHexChar c \<noteq> None \<Longrightarrow> \<exists>bs. DecodeString s = Inr bs"
proof (induction s rule: induct_list012)
  case 1
  show ?case by simp
next
  case (2 x)
  then show ?case by simp
next
  case (3 p q rest)
  then obtain bs where "DecodeString rest = Inr bs" by auto
  with 3 show ?case by (auto split: option.splits)
qed

lemma DecodeString_bad:
  "\<exists>c \<in> set s. fromHexChar c = None \<Longrightarrow> \<exists>e. DecodeString s = Inl e"
proof (induction s rule: induct_list012)
  case 1
  then show ?case by simp
next
  case (2 x)
  then show ?case by (simp split: option.splits)
next
  case (3 p q rest)
  show ?case
  proof (cases "\<exists>c \<in> set rest. fromHexChar c = None")
    case True
    with 3 obtain e where "DecodeString rest = Inl e" by blast
    then show ?thesis by (simp split: option.splits)
  next
    case False
    with 3 have "fromHexChar p = None \<or> fromHexChar q = None" by auto
    then show ?thesis by (auto split: option.splits)
  qed
qed

lemma DecodeString_hex:
  assumes "DecodeString s = Inr bs" and "c \<in> set s"
  shows "fromHexChar c \<noteq> None"
proof
  assume "fromHexChar c = None"
  with assms(2) have "\<exists>c \<in> set s. fromHexChar c = None" by blast
  then obtain e where "DecodeString s = Inl e" using DecodeString_bad by blast
  with assms(1) show False by simp
qed

lemma fromHexChar_ascii: "fromHexChar c \<noteq> None \<Longrightarrow> (of_char c :: nat) < 128"
  by (auto simp: fromHexChar_def Let_def split: if_splits)

lemma lower_hex_ascii: "lower_hex c \<Longrightarrow> (of_char c :: nat) < 128 \<and> \<not> upper_byte c"
  by (auto simp: lower_hex_def upper_byte_def)

lemma ToLower_EncodeToString: "ToLower t (EncodeToString src) = EncodeToString src"
  by (rule ToLower_ascii_lower) (use EncodeToString_lower_hex lower_hex_ascii in blast)

lemma ToLower_hex_idem:
  assumes t: "no_ascii_upper t" and hx: "\<forall>c \<in> set (ToLower t s). fromHexChar c \<noteq> None"
  shows "ToLower t (ToLower t s) = ToLower t s"
proof (rule ToLower_ascii_lower, rule ballI)
  fix c
  assume c: "c \<in> set (ToLower t s)"
  with hx have "(of_char c :: nat) < 128" by (intro fromHexChar_ascii) blast
  moreover from t c have "\<not> upper_byte c" by (rule ToLower_no_upper)
  ultimately show "(of_char c :: nat) < 128 \<and> \<not> upper_byte c" by simp
qed

subsection \<open>Reading, computing and comparing\<close>

lemma ReadSHA256File_eq:
  assumes "fs p = Some content" and "readFault pf p = None"
  shows "ReadSHA256File pf fs p =
     (case Fields content of
        [] \<Rightarrow> Inl SHA256FileIsEmpty
      | token # rest \<Rightarrow>
          if length (ToLower (toLowerCase pf) token) \<noteq> 64
          then Inl (InvalidSHA256HashLength (length (ToLower (toLowerCase pf) token)))
          else (case DecodeString (ToLower (toLowerCase pf) token) of
                  Inl err \<Rightarrow> Inl (InvalidSHA256HashFormat err)
                | Inr bs \<Rightarrow> Inr (ToLower (toLowerCase pf) token)))"
proof (cases "Fields content")
  case Nil
  then have "TrimSpace content = []" by (simp add: TrimSpace_Nil_iff)
  with Nil assms show ?thesis by (simp add: ReadSHA256File_def os_ReadFile_def)
next
  case (Cons token rest)
  then have ne: "TrimSpace content \<noteq> []" by (simp add: TrimSpace_Nil_iff)
  have parts: "Fields (TrimSpace content) = token # rest" by (simp add: Fields_TrimSpace Cons)
  show ?thesis
    using assms ne by (simp add: ReadSHA256File_def os_ReadFile_def parts Cons Let_def)
qed

lemma ReadSHA256File_fault:
  "fs p = Some content \<Longrightarrow> readFault pf p = Some k \<Longrightarrow> k < length content \<Longrightarrow>
     ReadSHA256File pf fs p = Inl (FailedToReadSHA256File InputOutputError)"
  by (simp add: ReadSHA256File_def os_ReadFile_def)

lemma ComputeFileSHA256_returns:
  assumes "fs p = Some data" and "readFault pf p = None"
      and "0 < bufferSize" and "bufferSize \<le> maxAlloc pf"
  shows "ComputeFileSHA256 pf fs p bufferSize
           = Some (Returns (Inr (EncodeToString (sha256_Sum pf data))))"
proof -
  from assms(3) have "0 < nat bufferSize" by simp
  then have "read_loop (nat bufferSize) (data, None) [] = Some (Inr ([] @ data))"
    by (rule read_loop_all)
  with assms show ?thesis by (simp add: ComputeFileSHA256_def)
qed

lemma ComputeFileSHA256_fault:
  assumes "fs p = Some data" and "readFault pf p = Some k" and "k < length data"
      and "0 < bufferSize" and "bufferSize \<le> maxAlloc pf"
  shows "ComputeFileSHA256 pf fs p bufferSize
           = Some (Returns (Inl (FailedToReadFile InputOutputError)))"
proof -
  from assms(4) have "0 < nat bufferSize" by simp
  then have "read_loop (nat bufferSize) (data, Some k) [] = Some (Inl InputOutputError)"
    using assms(3) by (rule read_loop_fault)
  with assms show ?thesis by (simp add: ComputeFileSHA256_def)
qed

text \<open>
  With a negative buffer size \<open>make\<close> panics, and with the buffer size 0 the loop reads
  no byte and meets no error: the call never returns.  (\<open>validateConfig\<close> refuses a
  configuration whose buffer size is not positive.)
\<close>

lemma ComputeFileSHA256_negative:
  "fs p = Some data \<Longrightarrow> bufferSize < 0 \<Longrightarrow>
     ComputeFileSHA256 pf fs p bufferSize = Some (Panics MakeSliceLenOutOfRange)"
  by (simp add: ComputeFileSHA256_def)

lemma ComputeFileSHA256_zero:
  "fs p = Some data \<Longrightarrow> 0 \<le> maxAlloc pf \<Longrightarrow> ComputeFileSHA256 pf fs p 0 = None"
  by (simp add: ComputeFileSHA256_def read_loop_zero)

lemma VerifyFile_read_error:
  "ReadSHA256File pf fs s = Inl e \<Longrightarrow>
     VerifyFile pf fs d s n = Some (Returns ([], [], Some (FailedToReadExpectedHash e)))"
  by (simp add: VerifyFile_def)

lemma VerifyFile_compare:
  "ReadSHA256File pf fs s = Inr expected \<Longrightarrow>
   ComputeFileSHA256 pf fs d n = Some (Returns (Inr computed)) \<Longrightarrow>
     VerifyFile pf fs d s n =
       Some (Returns (computed, expected,
          if ToLower (toLowerCase pf) computed \<noteq> ToLower (toLowerCase pf) expected
          then Some HashMismatch else None))"
  by (simp add: VerifyFile_def)

lemma VerifyFileMatch_returns:
  "VerifyFile pf fs d s n = Some (Returns (computed, expected, err)) \<Longrightarrow>
     VerifyFileMatch pf fs d s n = Some (Returns (err = None))"
  by (simp add: VerifyFileMatch_def)

text \<open>
  Claim C7.  Let the checksum file and the data file exist and be read without an
  input/output error, the buffer size be positive and no larger than what can be
  allocated, the digest have 32 bytes, and the case table map no rune above ASCII to an
  upper-case ASCII letter.  Then, for every content of the checksum file and every
  digest of the data file, \<open>VerifyFile\<close> returns (it does not panic and it does not run
  forever), and it returns no error if and only if the checksum file has a first
  white-space-delimited token and the lower-case hexadecimal of the digest equals the
  lower case of that token.  Every other content gives an error value: an empty or blank
  file, a first token whose lower case is not 64 bytes long, or has a byte that is no
  hexadecimal digit, and a well-formed token that differs from the digest.  White space
  and lower case are those of Unicode, as in \<open>strings.Fields\<close> and \<open>strings.ToLower\<close>.
\<close>

theorem VerifyFile_iff:
  assumes sha: "fs sha256FilePath = Some content"
      and sha_read: "readFault pf sha256FilePath = None"
      and dat: "fs dataFilePath = Some data"
      and dat_read: "readFault pf dataFilePath = None"
      and buf: "0 < bufferSize"
      and alloc: "bufferSize \<le> maxAlloc pf"
      and len: "length (sha256_Sum pf data) = 32"
      and tbl: "no_ascii_upper (toLowerCase pf)"
  shows "\<exists>computedHash expectedHash err.
           VerifyFile pf fs dataFilePath sha256FilePath bufferSize
             = Some (Returns (computedHash, expectedHash, err))
         \<and> VerifyFileMatch pf fs dataFilePath sha256FilePath bufferSize
             = Some (Returns (err = None))
         \<and> (err = None \<longleftrightarrow>
               (\<exists>token rest. Fields content = token # rest
                  \<and> ToLower (toLowerCase pf) (EncodeToString (sha256_Sum pf data))
                      = ToLower (toLowerCase pf) token))
         \<and> (Fields content = [] \<longrightarrow>
               err = Some (FailedToReadExpectedHash SHA256FileIsEmpty))
         \<and> (\<forall>token rest. Fields content = token # rest
                 \<and> length (ToLower (toLowerCase pf) token) \<noteq> 64 \<longrightarrow>
               err = Some (FailedToReadExpectedHash
                       (InvalidSHA256HashLength (length (ToLower (toLowerCase pf) token)))))
         \<and> (\<forall>token rest. Fields content = token # rest
                 \<and> length (ToLower (toLowerCase pf) token) = 64
                 \<and> (\<exists>c \<in> set (ToLower (toLowerCase pf) token). fromHexChar c = None) \<longrightarrow>
               (\<exists>e. err = Some (FailedToReadExpectedHash (InvalidSHA256HashFormat e))))
         \<and> (\<forall>token rest. Fields content = token # rest
                 \<and> length (ToLower (toLowerCase pf) token) = 64
                 \<and> (\<forall>c \<in> set (ToLower (toLowerCase pf) token). fromHexChar c \<noteq> None)
                 \<and> ToLower (toLowerCase pf) (EncodeToString (sha256_Sum pf data))
                     \<noteq> ToLower (toLowerCase pf) token \<longrightarrow>
               err = Some HashMismatch)"
proof -
  let ?L = "ToLower (toLowerCase pf)"
  let ?enc = "EncodeToString (sha256_Sum pf data)"
  let ?V = "VerifyFile pf fs dataFilePath sha256FilePath bufferSize"
  have enc_low: "?L ?enc = ?enc" by (rule ToLower_EncodeToString)
  have enc_len: "length ?enc = 64" by (simp add: length_EncodeToString len)
  have enc_hex: "\<forall>c \<in> set ?enc. fromHexChar c \<noteq> None"
    using EncodeToString_lower_hex lower_hex_fromHexChar by blast
  have enc_dec: "\<exists>bs. DecodeString ?enc = Inr bs"
    by (rule DecodeString_ok) (use enc_hex enc_len in auto)
  have comp: "ComputeFileSHA256 pf fs dataFilePath bufferSize = Some (Returns (Inr ?enc))"
    using dat dat_read buf alloc by (rule ComputeFileSHA256_returns)
  note rd = ReadSHA256File_eq [where fs = fs and p = sha256FilePath and content = content
      and pf = pf, OF sha sha_read]
  show ?thesis
  proof (cases "Fields content")
    case Nil
    from rd Nil have "ReadSHA256File pf fs sha256FilePath = Inl SHA256FileIsEmpty" by simp
    then have v: "?V = Some (Returns ([], [], Some (FailedToReadExpectedHash SHA256FileIsEmpty)))"
      by (rule VerifyFile_read_error)
    show ?thesis
      unfolding v VerifyFileMatch_returns [OF v] using Nil by simp
  next
    case (Cons token rest)
    show ?thesis
    proof (cases "length (?L token) = 64")
      case False
      from rd Cons False
      have "ReadSHA256File pf fs sha256FilePath = Inl (InvalidSHA256HashLength (length (?L token)))"
        by simp
      then have v: "?V = Some (Returns ([], [],
          Some (FailedToReadExpectedHash (InvalidSHA256HashLength (length (?L token))))))"
        by (rule VerifyFile_read_error)
      from False enc_len have ne: "?L ?enc \<noteq> ?L token" by (auto simp: enc_low)
      show ?thesis
        unfolding v VerifyFileMatch_returns [OF v] using Cons False ne by simp
    next
      case True
      show ?thesis
      proof (cases "DecodeString (?L token)")
        case (Inl e)
        from rd Cons True Inl
        have "ReadSHA256File pf fs sha256FilePath = Inl (InvalidSHA256HashFormat e)" by simp
        then have v: "?V = Some (Returns ([], [],
            Some (FailedToReadExpectedHash (InvalidSHA256HashFormat e))))"
          by (rule VerifyFile_read_error)
        from Inl enc_dec have ne: "?L ?enc \<noteq> ?L token" by (auto simp: enc_low)
        have nothex: "\<not> (\<forall>c \<in> set (?L token). fromHexChar c \<noteq> None)"
        proof
          assume "\<forall>c \<in> set (?L token). fromHexChar c \<noteq> None"
          with True obtain bs where "DecodeString (?L token) = Inr bs"
            using DecodeString_ok [of "?L token"] by auto
          with Inl show False by simp
        qed
        show ?thesis
          unfolding v VerifyFileMatch_returns [OF v] using Cons True ne nothex by simp
      next
        case (Inr bs)
        from rd Cons True Inr
        have "ReadSHA256File pf fs sha256FilePath = Inr (?L token)" by simp
        from VerifyFile_compare [OF this comp]
        have v0: "?V = Some (Returns (?enc, ?L token,
                    if ?L ?enc \<noteq> ?L (?L token) then Some HashMismatch else None))" .
        have hx: "\<forall>c \<in> set (?L token). fromHexChar c \<noteq> None"
          using DecodeString_hex [OF Inr] by blast
        have idem: "?L (?L token) = ?L token" using tbl hx by (rule ToLower_hex_idem)
        from v0 have v: "?V = Some (Returns (?enc, ?L token,
                    if ?L ?enc \<noteq> ?L token then Some HashMismatch else None))"
          by (simp only: idem)
        show ?thesis
          unfolding v VerifyFileMatch_returns [OF v] using Cons True hx by simp
      qed
    qed
  qed
qed

text \<open>
  When reading one of the two files fails, \<open>VerifyFile\<close> returns that error.
\<close>

lemma VerifyFile_checksum_fault:
  assumes "fs sha256FilePath = Some content" and "readFault pf sha256FilePath = Some k"
      and "k < length content"
  shows "VerifyFile pf fs dataFilePath sha256FilePath bufferSize
           = Some (Returns ([], [],
               Some (FailedToReadExpectedHash (FailedToReadSHA256File InputOutputError))))"
  by (rule VerifyFile_read_error) (use assms in \<open>rule ReadSHA256File_fault\<close>)

lemma encode_zero_hash: "EncodeToString (zero_hash data) = zeros64"
  by (simp add: EncodeToString_def hextable_def zeros64_def zero_hash_def numeral_eq_Suc)

lemma runes_append_ascii:
  "\<forall>c \<in> set s. (of_char c :: nat) < 128 \<Longrightarrow>
     runes (s @ t) = map (\<lambda>c. (of_char c, [c])) s @ runes t"
  by (induction s) (simp_all add: runes_ascii_Cons del: runes.simps)

lemma fields_from_token:
  "\<forall>c \<in> set s. \<not> unicode_IsSpace (of_char c) \<Longrightarrow>
     fields_from cur (map (\<lambda>c. (of_char c, [c])) s @ rs) = fields_from (cur @ s) rs"
  by (induction s arbitrary: cur) (simp_all add: isSpaceRune_def)

lemma fields_ok: "Fields (zeros64 @ ''  a.bin'') = [zeros64, ''a.bin'']"
proof -
  have z: "\<forall>c \<in> set zeros64. (of_char c :: nat) < 128"
          "\<forall>c \<in> set zeros64. \<not> unicode_IsSpace (of_char c)"
    by (simp_all add: zeros64_def unicode_IsSpace_def)
  have "fields_from [] (runes ''  a.bin'') = [''a.bin'']"
    by (simp add: DecodeRuneInString_def isSpaceRune_def unicode_IsSpace_def)
  then have r: "fields_from zeros64 (runes ''  a.bin'') = [zeros64, ''a.bin'']"
    by (simp add: DecodeRuneInString_def isSpaceRune_def unicode_IsSpace_def zeros64_def)
  show ?thesis
    by (simp only: Fields_def runes_append_ascii [OF z(1)] fields_from_token [OF z(2)]
          append_Nil r)
qed

lemma fields_b: "Fields (ones64 @ ''  a.bin'') = [ones64, ''a.bin'']"
proof -
  have z: "\<forall>c \<in> set ones64. (of_char c :: nat) < 128"
          "\<forall>c \<in> set ones64. \<not> unicode_IsSpace (of_char c)"
    by (simp_all add: ones64_def unicode_IsSpace_def)
  have "fields_from [] (runes ''  a.bin'') = [''a.bin'']"
    by (simp add: DecodeRuneInString_def isSpaceRune_def unicode_IsSpace_def)
  then have r: "fields_from ones64 (runes ''  a.bin'') = [ones64, ''a.bin'']"
    by (simp add: DecodeRuneInString_def isSpaceRune_def unicode_IsSpace_def ones64_def)
  show ?thesis
    by (simp only: Fields_def runes_append_ascii [OF z(1)] fields_from_token [OF z(2)]
          append_Nil r)
qed

lemma fields_nbsp: "Fields (zeros64 @ CHR 0xC2 # CHR 0xA0 # ''a.bin'') = [zeros64, ''a.bin'']"
proof -
  have z: "\<forall>c \<in> set zeros64. (of_char c :: nat) < 128"
          "\<forall>c \<in> set zeros64. \<not> unicode_IsSpace (of_char c)"
    by (simp_all add: zeros64_def unicode_IsSpace_def)
  have r: "fields_from zeros64 (runes (CHR 0xC2 # CHR 0xA0 # ''a.bin'')) = [zeros64, ''a.bin'']"
    by (simp add: DecodeRuneInString_def second_ok_def isSpaceRune_def unicode_IsSpace_def
          zeros64_def)
  show ?thesis
    by (simp only: Fields_def runes_append_ascii [OF z(1)] fields_from_token [OF z(2)]
          append_Nil r)
qed

lemma platform0_table: "no_ascii_upper (toLowerCase platform0)"
  by (simp add: no_ascii_upper_def platform0_def)

lemma ToLower_zeros64: "ToLower t zeros64 = zeros64"
  by (rule ToLower_ascii_lower) (simp add: zeros64_def upper_byte_def)

lemma ToLower_ones64: "ToLower t ones64 = ones64"
  by (rule ToLower_ascii_lower) (simp add: ones64_def upper_byte_def)

lemma ones64_hex: "length ones64 = 64 \<and> (\<forall>c \<in> set ones64. fromHexChar c \<noteq> None)"
  by (simp add: ones64_def fromHexChar_def)

text \<open>
  A checksum file that matches the digest, one where a no-break space follows the
  checksum, and one that does not match.
\<close>

theorem VerifyFile_iff_witness:
  "fs_ok ''/src/a.bin.sha256'' = Some (zeros64 @ ''  a.bin'')
   \<and> fs_nbsp ''/src/a.bin.sha256'' = Some (zeros64 @ CHR 0xC2 # CHR 0xA0 # ''a.bin'')
   \<and> fs_b ''/src/a.bin.sha256'' = Some (ones64 @ ''  a.bin'')
   \<and> fs_ok ''/src/a.bin'' = Some ''payload''
   \<and> readFault platform0 ''/src/a.bin.sha256'' = None
   \<and> readFault platform0 ''/src/a.bin'' = None
   \<and> (0 :: int) < 4096 \<and> 4096 \<le> maxAlloc platform0
   \<and> length (sha256_Sum platform0 ''payload'') = 32
   \<and> no_ascii_upper (toLowerCase platform0)
   \<and> (\<exists>computedHash expectedHash.
         VerifyFile platform0 fs_ok ''/src/a.bin'' ''/src/a.bin.sha256'' 4096
           = Some (Returns (computedHash, expectedHash, None)))
   \<and> VerifyFileMatch platform0 fs_ok ''/src/a.bin'' ''/src/a.bin.sha256'' 4096
       = Some (Returns True)
   \<and> (\<exists>computedHash expectedHash.
         VerifyFile platform0 fs_nbsp ''/src/a.bin'' ''/src/a.bin.sha256'' 4096
           = Some (Returns (computedHash, expectedHash, None)))
   \<and> (\<exists>computedHash expectedHash.
         VerifyFile platform0 fs_b ''/src/a.bin'' ''/src/a.bin.sha256'' 4096
           = Some (Returns (computedHash, expectedHash, Some HashMismatch)))"
proof -
  have sha: "fs_ok ''/src/a.bin.sha256'' = Some (zeros64 @ ''  a.bin'')"
    by (simp add: fs_ok_def)
  have dat: "fs_ok ''/src/a.bin'' = Some ''payload''"
    by (simp add: fs_ok_def)
  have sha_n: "fs_nbsp ''/src/a.bin.sha256'' = Some (zeros64 @ CHR 0xC2 # CHR 0xA0 # ''a.bin'')"
    by (simp add: fs_nbsp_def)
  have dat_n: "fs_nbsp ''/src/a.bin'' = Some ''payload''"
    by (simp add: fs_nbsp_def)
  have sha_b: "fs_b ''/src/a.bin.sha256'' = Some (ones64 @ ''  a.bin'')"
    by (simp add: fs_b_def)
  have dat_b: "fs_b ''/src/a.bin'' = Some ''payload''"
    by (simp add: fs_b_def)
  have rd: "readFault platform0 ''/src/a.bin.sha256'' = None"
           "readFault platform0 ''/src/a.bin'' = None"
    by (simp_all add: platform0_def)
  have buf: "(0 :: int) < 4096" "4096 \<le> maxAlloc platform0"
    by (simp_all add: platform0_def)
  have len: "length (sha256_Sum platform0 ''payload'') = 32"
    by (simp add: platform0_def zero_hash_def)
  have enc: "EncodeToString (sha256_Sum platform0 ''payload'') = zeros64"
    by (simp add: platform0_def encode_zero_hash)
  have neq: "zeros64 \<noteq> ones64" by (simp add: zeros64_def ones64_def)
  have ok: "(\<exists>computedHash expectedHash.
         VerifyFile platform0 fs_ok ''/src/a.bin'' ''/src/a.bin.sha256'' 4096
           = Some (Returns (computedHash, expectedHash, None)))
      \<and> VerifyFileMatch platform0 fs_ok ''/src/a.bin'' ''/src/a.bin.sha256'' 4096
           = Some (Returns True)"
    using VerifyFile_iff [where pf = platform0 and fs = fs_ok
            and sha256FilePath = "''/src/a.bin.sha256''" and content = "zeros64 @ ''  a.bin''"
            and dataFilePath = "''/src/a.bin''" and data = "''payload''" and bufferSize = 4096,
            OF sha rd(1) dat rd(2) buf len platform0_table]
    by (auto simp: fields_ok enc ToLower_zeros64)
  have nbsp: "\<exists>computedHash expectedHash.
         VerifyFile platform0 fs_nbsp ''/src/a.bin'' ''/src/a.bin.sha256'' 4096
           = Some (Returns (computedHash, expectedHash, None))"
    using VerifyFile_iff [where pf = platform0 and fs = fs_nbsp
            and sha256FilePath = "''/src/a.bin.sha256''"
            and content = "zeros64 @ CHR 0xC2 # CHR 0xA0 # ''a.bin''"
            and dataFilePath = "''/src/a.bin''" and data = "''payload''" and bufferSize = 4096,
            OF sha_n rd(1) dat_n rd(2) buf len platform0_table]
    by (auto simp: fields_nbsp enc ToLower_zeros64)
  have bad: "\<exists>computedHash expectedHash.
         VerifyFile platform0 fs_b ''/src/a.bin'' ''/src/a.bin.sha256'' 4096
           = Some (Returns (computedHash, expectedHash, Some HashMismatch))"
    using VerifyFile_iff [where pf = platform0 and fs = fs_b
            and sha256FilePath = "''/src/a.bin.sha256''" and content = "ones64 @ ''  a.bin''"
            and dataFilePath = "''/src/a.bin''" and data = "''payload''" and bufferSize = 4096,
            OF sha_b rd(1) dat_b rd(2) buf len platform0_table]
          ones64_hex neq
    by (auto simp: fields_b enc ToLower_zeros64 ToLower_ones64)
  show ?thesis
    using sha sha_n sha_b dat rd buf len platform0_table ok nbsp bad by simp
qed

section \<open>Properties of the file operations\<close>

lemmas path_defs = filepath_Base_def filepath_Ext_def filepath_Join_def filepath_Clean_def
  isPathSeparator_def getUniqueFilePath_def sprintf_d_def Let_def digits_def decimal.simps

lemmas fs_defs = os_Stat_def os_Rename_def os_Remove_def os_ReadFile_def copyFile_def moveFile_def
  MoveToVerified_def MoveToDLQ_def DeleteFile_def FileExists_def

lemmas example_defs = pool_def pair_a_def job_a_def sys_of_def success_a_def failure_a_def
  NewStatsTracker_def

text \<open>
  Claim C8.  When the folder already holds a file with the name of the file that is
  moved, the mover picks a path that names no existing file, also when the same name
  collides again in the same run.  \<open>getUniqueFilePath\<close> appends the process id, which
  is the same for the whole run, and nobody checks that the new path is free.  With
  \<open>a.bin\<close> in the verified folder, the first move of \<open>/src/a.bin\<close> goes to
  \<open>a_42.bin\<close>; a second file \<open>/src/a.bin\<close> is then moved to the same path, which
  exists, and replaces the first one.
\<close>

theorem MoveToVerified_second_collision_overwrites:
  "MoveToVerified 42 fs_d ''/src/a.bin'' ''/verified''
     = (Inr ''/verified/a_42.bin'',
        [''/verified/a.bin'' \<mapsto> ''old'', ''/verified/a_42.bin'' \<mapsto> ''first''])
   \<and> FileExists [''/verified/a.bin'' \<mapsto> ''old'', ''/verified/a_42.bin'' \<mapsto> ''first'',
                  ''/src/a.bin'' \<mapsto> ''second''] ''/verified/a_42.bin''
   \<and> MoveToVerified 42
        [''/verified/a.bin'' \<mapsto> ''old'', ''/verified/a_42.bin'' \<mapsto> ''first'',
         ''/src/a.bin'' \<mapsto> ''second'']
        ''/src/a.bin'' ''/verified''
     = (Inr ''/verified/a_42.bin'',
        [''/verified/a.bin'' \<mapsto> ''old'', ''/verified/a_42.bin'' \<mapsto> ''second''])"
  by (simp add: fs_defs fs_d_def path_defs fun_upd_twist)

section \<open>Properties of the worker pool\<close>

text \<open>
  Claim C3.  After a successful verification the worker always removes the pair from the
  registry and increments the success counter, also when the move to the verified folder
  returns an error.  When the move fails (here the data file is no longer at its path),
  \<open>handleSuccess\<close> returns early: the pair stays in the registry, the success counter
  is unchanged and the failure counter is incremented.
\<close>

theorem handleSuccess_move_error_keeps_pair:
  "Success success_a
   \<and> fst (MoveToVerified (processId pool) [''/src/a.bin.sha256'' \<mapsto> ''00'']
            (DataFilePath pair_a) (verifiedFolder pool))
       = Inl (FailedToMoveToVerified (FailedToCopyFile (FailedToOpenSourceFile NotExist)))
   \<and> GetFilePair ''a.bin'' (fileTracker (handleSuccess pool success_a
          (sys_of [''/src/a.bin.sha256'' \<mapsto> ''00'']))) = Some pair_a
   \<and> successCount (statsTracker (handleSuccess pool success_a
          (sys_of [''/src/a.bin.sha256'' \<mapsto> ''00'']))) = 0
   \<and> failureCount (statsTracker (handleSuccess pool success_a
          (sys_of [''/src/a.bin.sha256'' \<mapsto> ''00'']))) = 1"
  by (simp add: handleSuccess_def example_defs fs_defs path_defs GetFilePair_def
        IncrementFailure_def)

text \<open>
  Claim C3, amended.  After a successful verification, when the move to the verified
  folder succeeds, the worker removes the pair from the registry, increments the success
  counter and appends the row to verification.csv, whether the deletion of the checksum
  file succeeds or fails (a failure is written to the error stream).  When the move
  returns an error, the error is written to the error stream, the failure counter is
  incremented and the registry is left as it was.
\<close>

theorem handleSuccess_cases:
  "let pair = JobFilePair (Job result); s' = handleSuccess wpm result s;
       moved = MoveToVerified (processId wpm) (fsys s) (DataFilePath pair) (verifiedFolder wpm)
   in (\<forall>newPath. fst moved = Inr newPath \<longrightarrow>
          fileTracker s' = Remove (DataFile pair) (fileTracker s)
        \<and> GetFilePair (DataFile pair) (fileTracker s') = None
        \<and> statsTracker s' = IncrementSuccess (Duration result) (statsTracker s)
        \<and> successCount (statsTracker s') = successCount (statsTracker s) + 1
        \<and> fsys s' = snd (DeleteFile (snd moved) (SHA256Path pair))
        \<and> verificationCSV s' = verificationCSV s @ [CreateCSVLogEntry result]
        \<and> errorStream s' =
            (case fst (DeleteFile (snd moved) (SHA256Path pair)) of
               Some err \<Rightarrow> errorStream s @ [FailedToDeleteSHA256File (SHA256File pair) err]
             | None \<Rightarrow> errorStream s))
    \<and> (\<forall>err. fst moved = Inl err \<longrightarrow>
          fileTracker s' = fileTracker s
        \<and> statsTracker s' = IncrementFailure (Duration result) (statsTracker s)
        \<and> successCount (statsTracker s') = successCount (statsTracker s)
        \<and> fsys s' = snd moved
        \<and> verificationCSV s' = verificationCSV s
        \<and> errorStream s' = errorStream s @ [FailedToMoveToVerifiedFolder (DataFile pair) err])"
  by (auto simp: Let_def handleSuccess_def Remove_def GetFilePair_def delete_conv'
        IncrementSuccess_def IncrementFailure_def split: prod.splits sum.splits)

text \<open>
  Two runs of \<open>handleSuccess\<close>.  In the first the move succeeds and the checksum file is
  already gone, so the deletion fails.  In the second the data file is gone and the move
  fails.
\<close>

theorem handleSuccess_cases_witness:
  "fst (MoveToVerified (processId pool) (fsys (sys_of [''/src/a.bin'' \<mapsto> ''payload'']))
          (DataFilePath (JobFilePair (Job success_a))) (verifiedFolder pool)) = Inr ''/verified/a.bin''
   \<and> fileTracker (handleSuccess pool success_a (sys_of [''/src/a.bin'' \<mapsto> ''payload'']))
       = \<lparr>files = [], retryTimeout = 5\<rparr>
   \<and> successCount (statsTracker (handleSuccess pool success_a
         (sys_of [''/src/a.bin'' \<mapsto> ''payload'']))) = 1
   \<and> errorStream (handleSuccess pool success_a (sys_of [''/src/a.bin'' \<mapsto> ''payload'']))
       = [FailedToDeleteSHA256File ''a.bin.sha256''
            (FailedToDeleteFile ''/src/a.bin.sha256'' NotExist)]
   \<and> fsys (handleSuccess pool success_a (sys_of [''/src/a.bin'' \<mapsto> ''payload'']))
       = [''/verified/a.bin'' \<mapsto> ''payload'']
   \<and> fst (MoveToVerified (processId pool) (fsys (sys_of [''/src/a.bin.sha256'' \<mapsto> ''00'']))
          (DataFilePath (JobFilePair (Job success_a))) (verifiedFolder pool))
       = Inl (FailedToMoveToVerified (FailedToCopyFile (FailedToOpenSourceFile NotExist)))
   \<and> fileTracker (handleSuccess pool success_a (sys_of [''/src/a.bin.sha256'' \<mapsto> ''00'']))
       = \<lparr>files = [(''a.bin'', pair_a)], retryTimeout = 5\<rparr>
   \<and> errorStream (handleSuccess pool success_a (sys_of [''/src/a.bin.sha256'' \<mapsto> ''00'']))
       = [FailedToMoveToVerifiedFolder ''a.bin''
            (FailedToMoveToVerified (FailedToCopyFile (FailedToOpenSourceFile NotExist)))]"
  using handleSuccess_cases [of success_a pool "sys_of [''/src/a.bin'' \<mapsto> ''payload'']"]
        handleSuccess_cases [of success_a pool "sys_of [''/src/a.bin.sha256'' \<mapsto> ''00'']"]
  by (simp add: example_defs fs_defs path_defs Remove_def IncrementSuccess_def)

lemma tick_b:
  "on_tick 5 4096 pool (sys_of fs_b)
     = (sys_of fs_b)\<lparr>jobQueue := [job_a], statsTracker := SetPendingCount 1 (NewStatsTracker 0)\<rparr>"
  by (simp add: on_tick_def submit_ready_def SubmitJob_def GetReadyForVerification_def
        example_defs time_Add_def GetPendingCount_def SetPendingCount_def)

lemma verify_b:
  "VerifyFile platform0 fs_b ''/src/a.bin'' ''/src/a.bin.sha256'' 4096
     = Some (Returns (zeros64, ones64, Some HashMismatch))"
proof -
  have sha: "fs_b ''/src/a.bin.sha256'' = Some (ones64 @ ''  a.bin'')"
    by (simp add: fs_b_def)
  have dat: "fs_b ''/src/a.bin'' = Some ''payload''"
    by (simp add: fs_b_def)
  have nofault: "readFault platform0 p = None" for p
    by (simp add: platform0_def)
  obtain bs where dec: "DecodeString ones64 = Inr bs"
    using DecodeString_ok [of ones64] ones64_hex by auto
  have rd: "ReadSHA256File platform0 fs_b ''/src/a.bin.sha256'' = Inr ones64"
    using ReadSHA256File_eq [where fs = fs_b and p = "''/src/a.bin.sha256''"
            and content = "ones64 @ ''  a.bin''" and pf = platform0, OF sha nofault]
    by (simp add: fields_b ToLower_ones64 dec ones64_hex)
  have "ComputeFileSHA256 platform0 fs_b ''/src/a.bin'' 4096
          = Some (Returns (Inr (EncodeToString (sha256_Sum platform0 ''payload''))))"
    by (rule ComputeFileSHA256_returns [where fs = fs_b and data = "''payload''", OF dat nofault])
       (simp_all add: platform0_def)
  then have cp: "ComputeFileSHA256 platform0 fs_b ''/src/a.bin'' 4096
          = Some (Returns (Inr zeros64))"
    by (simp add: platform0_def encode_zero_hash)
  have neq: "zeros64 \<noteq> ones64" by (simp add: zeros64_def ones64_def)
  from VerifyFile_compare [OF rd cp] neq show ?thesis
    by (simp add: ToLower_zeros64 ToLower_ones64)
qed

lemma exists_b: "FileExists fs_b ''/src/a.bin'' \<and> FileExists fs_b ''/src/a.bin.sha256''"
  by (simp add: FileExists_def os_Stat_def fs_b_def)

text \<open>
  Claim C4.  After a failed verification the pair goes to the dead-letter folder when
  \<open>now \<ge> retryDeadline\<close> and is left alone when \<open>now < retryDeadline\<close>; at
  \<open>now = retryDeadline\<close> it must go to the dead-letter folder.  \<open>handleFailure\<close>
  tests \<open>time.Now().After(RetryDeadline)\<close>, which is false at the deadline itself.  The
  coordinator builds the job of \<open>a.bin\<close> with the deadline \<open>0 + 5\<close>; a worker that
  finds the mismatch and reads the clock at instant 5 leaves the pair in the registry,
  the files in the source folder and the failure counter at 0.
\<close>

theorem handleFailure_at_deadline_no_action:
  "jobQueue (on_tick 5 4096 pool (sys_of fs_b)) = [job_a]
   \<and> RetryDeadline job_a = time_Add (FirstSeen pair_a) 5
   \<and> atFailure (clock_at 5) = RetryDeadline job_a
   \<and> (\<exists>s'. worker_step pool platform0 (clock_at 5) (on_tick 5 4096 pool (sys_of fs_b))
              = Some (Returns s')
          \<and> GetFilePair ''a.bin'' (fileTracker s') = Some pair_a
          \<and> fsys s' = fs_b
          \<and> failureCount (statsTracker s') = 0)
   \<and> handleFailure pool (RetryDeadline job_a) failure_a (sys_of fs_b) = sys_of fs_b"
proof -
  have step: "worker_step pool platform0 (clock_at 5) (on_tick 5 4096 pool (sys_of fs_b))
      = Some (Returns ((sys_of fs_b)\<lparr>jobQueue := [],
                         statsTracker := SetPendingCount 1 (NewStatsTracker 0)\<rparr>))"
    unfolding tick_b
    using exists_b
    by (simp add: worker_step_def processJob_def verify_b handleFailure_def time_After_def
          clock_at_def Let_def example_defs SetPendingCount_def)
  show ?thesis
    unfolding step
    by (simp add: tick_b handleFailure_def time_After_def)
       (simp add: example_defs GetFilePair_def time_Add_def clock_at_def SetPendingCount_def)
qed

text \<open>
  Claim C4, amended.  After a failed verification, if \<open>now\<close> is strictly after the
  job's retry deadline, the worker calls \<open>MoveToDLQ\<close>, removes the pair from the
  registry and increments the failure counter (an error of the move is written to the
  error stream and changes nothing else); if \<open>now \<le> retryDeadline\<close>, in particular at
  \<open>now = retryDeadline\<close>, nothing changes and the pair stays in the registry.
\<close>

theorem handleFailure_cases:
  "let pair = JobFilePair (Job result); s' = handleFailure wpm now result s;
       moved = MoveToDLQ (processId wpm) (fsys s) (DataFilePath pair) (SHA256Path pair) (dlqFolder wpm)
   in (RetryDeadline (Job result) < now \<longrightarrow>
          fileTracker s' = Remove (DataFile pair) (fileTracker s)
        \<and> GetFilePair (DataFile pair) (fileTracker s') = None
        \<and> statsTracker s' = IncrementFailure (Duration result) (statsTracker s)
        \<and> failureCount (statsTracker s') = failureCount (statsTracker s) + 1
        \<and> fsys s' = snd moved
        \<and> errorStream s' =
            (case fst moved of
               Some err \<Rightarrow> errorStream s @ [FailedToMoveToDLQ (DataFile pair) err]
             | None \<Rightarrow> errorStream s))
    \<and> (now \<le> RetryDeadline (Job result) \<longrightarrow> s' = s)"
  by (auto simp: Let_def handleFailure_def time_After_def Remove_def GetFilePair_def delete_conv'
        IncrementFailure_def split: prod.splits)

theorem handleFailure_cases_witness:
  "RetryDeadline (Job failure_a) < 6
   \<and> fileTracker (handleFailure pool 6 failure_a (sys_of fs_b)) = \<lparr>files = [], retryTimeout = 5\<rparr>
   \<and> failureCount (statsTracker (handleFailure pool 6 failure_a (sys_of fs_b))) = 1
   \<and> fsys (handleFailure pool 6 failure_a (sys_of fs_b)) ''/src/a.bin'' = None
   \<and> fsys (handleFailure pool 6 failure_a (sys_of fs_b)) ''/src/a.bin.sha256'' = None
   \<and> fsys (handleFailure pool 6 failure_a (sys_of fs_b)) ''/dlq/a.bin'' = Some ''payload''
   \<and> fsys (handleFailure pool 6 failure_a (sys_of fs_b)) ''/dlq/a.bin.sha256'' =
        fs_b ''/src/a.bin.sha256''
   \<and> errorStream (handleFailure pool 6 failure_a (sys_of fs_b)) = []
   \<and> 5 \<le> RetryDeadline (Job failure_a)
   \<and> handleFailure pool 5 failure_a (sys_of fs_b) = sys_of fs_b"
  using handleFailure_cases [of failure_a pool 6 "sys_of fs_b"]
        handleFailure_cases [of failure_a pool 5 "sys_of fs_b"]
  by (simp add: example_defs fs_defs path_defs Remove_def IncrementFailure_def fs_b_def)

section \<open>Properties of the coordinator\<close>

lemma submit_ready_keeps:
  "fileTracker (submit_ready t b wpm s p) = fileTracker s
   \<and> fsys (submit_ready t b wpm s p) = fsys s"
  by (simp add: submit_ready_def SubmitJob_def Let_def)

lemma foldl_submit_keeps:
  "fileTracker (foldl (submit_ready t b wpm) s ps) = fileTracker s
   \<and> fsys (foldl (submit_ready t b wpm) s ps) = fsys s"
  by (induction ps arbitrary: s) (simp_all add: submit_ready_keeps)

lemma on_tick_keeps:
  "fileTracker (on_tick t b wpm s) = fileTracker s \<and> fsys (on_tick t b wpm s) = fsys s"
  by (simp add: on_tick_def Let_def foldl_submit_keeps)

text \<open>No event of the coordinator changes the registry or the file system.\<close>

lemma coordinator_keeps:
  "fileTracker (coordinator t b wpm evs s) = fileTracker s
   \<and> fsys (coordinator t b wpm evs s) = fsys s"
  by (induction t b wpm evs s rule: coordinator.induct)
     (simp_all add: on_tick_keeps on_stats_tick_def Let_def)

text \<open>
  Claim C1.  Once \<open>now - firstSeen \<ge> retryTimeout\<close>, a tick of the coordinator reaps
  the pair: it goes to the dead-letter folder and leaves the registry, also a pair that is
  only a data file.  The data file \<open>c.bin\<close> is recorded at instant 0 with a retry
  timeout of 5 and its checksum file never comes.  At instant 10 \<open>GetExpiredFiles\<close>
  returns the pair, but the coordinator never calls it: whatever events it receives, the
  pair stays in the registry and the file stays in the source folder; no job is ever
  queued for it.
\<close>

theorem coordinator_never_reaps_expired:
  "fileTracker sys_c = \<lparr>files = [(''c.bin'', pair_c)], retryTimeout = 5\<rparr>
   \<and> GetExpiredFiles 10 (fileTracker sys_c) = [pair_c]
   \<and> IsExpired 10 ''c.bin'' (fileTracker sys_c)
   \<and> (\<forall>evs. GetFilePair ''c.bin'' (fileTracker (coordinator 5 4096 pool evs sys_c)) = Some pair_c
          \<and> fsys (coordinator 5 4096 pool evs sys_c) ''/src/c.bin'' = Some ''payload''
          \<and> fsys (coordinator 5 4096 pool evs sys_c) ''/dlq/c.bin'' = None)
   \<and> jobQueue (coordinator 5 4096 pool [Tick, Tick, Tick] sys_c) = []"
proof -
  have ft: "fileTracker sys_c = \<lparr>files = [(''c.bin'', pair_c)], retryTimeout = 5\<rparr>"
    by (simp add: sys_c_def AddOrUpdateDataFile_def NewFileTracker_def pair_c_def
          filepath_Base_def isPathSeparator_def Let_def)
  have ex: "GetExpiredFiles 10 (fileTracker sys_c) = [pair_c]
            \<and> IsExpired 10 ''c.bin'' (fileTracker sys_c)"
    unfolding ft
    by (simp add: GetExpiredFiles_def IsExpired_def time_Sub_def pair_c_def word_sle_eq)
  have q: "jobQueue (coordinator 5 4096 pool [Tick, Tick, Tick] sys_c) = []"
    by (simp add: on_tick_def GetReadyForVerification_def ft pair_c_def Let_def)
       (simp add: sys_c_def)
  show ?thesis
    using ft ex q
    by (simp add: coordinator_keeps GetFilePair_def) (simp add: sys_c_def)
qed

end
